theory Spec2Isabelle
  imports Complex_Main "HOL-Library.Sublist"
begin

section \<open>Python values\<close>

text \<open>
  A Python \<^verbatim>\<open>str\<close> is a sequence of Unicode code points, and the model keeps it as the list
  of their numbers, so that lengths, slices and character classes count what Python counts.
  \<open>ascii\<close> writes a literal of ASCII characters.
\<close>

type_synonym pystr = "nat list"

definition ascii :: "string \<Rightarrow> pystr" where
  "ascii lit = map of_char lit"

text \<open>
  \<^verbatim>\<open>str.isspace\<close> on one character, which is also the class \<^verbatim>\<open>\s\<close> of a \<^verbatim>\<open>str\<close> pattern and
  what \<^verbatim>\<open>str.strip()\<close> removes: the ASCII controls 9 to 13 and 28 to 31, the space, and the
  Unicode separators U+0085, U+00A0, U+1680, U+2000 to U+200A, U+2028, U+2029, U+202F, U+205F
  and U+3000.
\<close>

definition isspace :: "nat \<Rightarrow> bool" where
  "isspace c \<longleftrightarrow>
     (9 \<le> c \<and> c \<le> 13) \<or> (28 \<le> c \<and> c \<le> 32) \<or> c = 133 \<or> c = 160 \<or> c = 5760 \<or>
     (8192 \<le> c \<and> c \<le> 8202) \<or> c = 8232 \<or> c = 8233 \<or> c = 8239 \<or> c = 8287 \<or> c = 12288"

definition strip :: "pystr \<Rightarrow> pystr" where
  "strip t = rev (dropWhile isspace (rev (dropWhile isspace t)))"

text \<open>\<^verbatim>\<open>str(n)\<close> for a length \<open>n\<close>: its decimal digits.\<close>

fun str_nat :: "nat \<Rightarrow> pystr" where
  "str_nat n = (if n < 10 then [48 + n] else str_nat (n div 10) @ [48 + n mod 10])"

text \<open>
  The values \<^verbatim>\<open>json.loads\<close> returns, which are also the values the programs store in their
  dictionaries. A \<^verbatim>\<open>dict\<close> is the list of its items in insertion order, each key once; its
  keys are strings, as those of a JSON object are. A \<^verbatim>\<open>float\<close> is the real number it stands
  for (\<open>Finite 0\<close> is the zero of positive sign), the zero of negative sign, or one of
  the three special values the decoder accepts.
\<close>

datatype pyfloat = Finite real | NegZero | PosInfinity | NegInfinity | NaN

datatype pyval =
    VNone
  | VBool bool
  | VInt int
  | VFloat pyfloat
  | VStr pystr
  | VList "pyval list"
  | VDict "(pystr \<times> pyval) list"

text \<open>The truth value of a value, as \<^verbatim>\<open>if v\<close> and \<^verbatim>\<open>not v\<close> take it.\<close>

fun truthy :: "pyval \<Rightarrow> bool" where
  "truthy VNone = False"
| "truthy (VBool b) = b"
| "truthy (VInt i) = (i \<noteq> 0)"
| "truthy (VFloat f) = (f \<noteq> Finite 0 \<and> f \<noteq> NegZero)"
| "truthy (VStr t) = (t \<noteq> [])"
| "truthy (VList xs) = (xs \<noteq> [])"
| "truthy (VDict d) = (d \<noteq> [])"

text \<open>\<^verbatim>\<open>d.get(key, default)\<close> and \<^verbatim>\<open>d[key] = v\<close>.\<close>

definition dict_get :: "(pystr \<times> pyval) list \<Rightarrow> pystr \<Rightarrow> pyval \<Rightarrow> pyval" where
  "dict_get d key dflt = (case map_of d key of Some v \<Rightarrow> v | None \<Rightarrow> dflt)"

fun dict_set :: "(pystr \<times> pyval) list \<Rightarrow> pystr \<Rightarrow> pyval \<Rightarrow> (pystr \<times> pyval) list" where
  "dict_set [] key v = [(key, v)]"
| "dict_set ((k, w) # d) key v = (if k = key then (k, v) # d else (k, w) # dict_set d key v)"

text \<open>
  The exceptions of the model. A \<^verbatim>\<open>ValueError\<close> carries its message, and \<open>OtherError\<close> is an
  exception of a class the model does not name, with its message.
\<close>

datatype py_error =
    ValueError pystr
  | TypeError
  | AttributeError
  | KeyError
  | ZeroDivisionError
  | OverflowError
  | OtherError pystr

section \<open>Floating point arithmetic\<close>

text \<open>
  A Python \<^verbatim>\<open>float\<close> is an IEEE 754 binary64 number, and an operation returns the number
  nearest to its exact result, a tie going to the one whose last bit is 0.
  \<open>round_half_even\<close> is this rounding to an integer. \<open>binary64 x\<close> rounds the real \<open>x\<close> to 53
  significant bits, the exponent of the last bit, \<open>e\<close>, never below that of the subnormal
  numbers, \<open>-1074\<close>; it puts no bound on the size of the result.
\<close>

definition round_half_even :: "real \<Rightarrow> int" where
  "round_half_even x =
     (let n = \<lfloor>x\<rfloor>; rest = x - of_int n
      in if rest < 1 / 2 then n
         else if 1 / 2 < rest then n + 1
         else if even n then n else n + 1)"

definition binary64 :: "real \<Rightarrow> real" where
  "binary64 x =
     (if x = 0 then 0
      else (let e = max (\<lfloor>log 2 \<bar>x\<bar>\<rfloor> - 52) (- 1074)
            in of_int (round_half_even (x / 2 powi e)) * 2 powi e))"

text \<open>
  The \<^verbatim>\<open>float\<close> an operation returns when its exact result is \<open>x\<close> and the sign of that
  result is \<open>negative\<close>, which is what tells the two zeros apart: a rounded value of size
  \<open>2 ^ 1024\<close> or more is beyond the largest number and becomes an infinity.
\<close>

definition rounded :: "bool \<Rightarrow> real \<Rightarrow> pyfloat" where
  "rounded negative x =
     (let r = binary64 x
      in if 2 ^ 1024 \<le> r then PosInfinity
         else if r \<le> - (2 ^ 1024) then NegInfinity
         else if r = 0 then (if negative then NegZero else Finite 0)
         else Finite r)"

text \<open>
  \<^verbatim>\<open>a / b\<close> on two \<^verbatim>\<open>int\<close>: the quotient of the two integers, rounded once. It raises
  \<^verbatim>\<open>ZeroDivisionError\<close> when \<^verbatim>\<open>b\<close> is 0 and \<^verbatim>\<open>OverflowError\<close> when the rounded quotient is
  beyond the largest number.
\<close>

definition int_truediv :: "int \<Rightarrow> int \<Rightarrow> py_error + pyfloat" where
  "int_truediv a b =
     (if b = 0 then Inl ZeroDivisionError
      else
        (case rounded ((a < 0) \<noteq> (b < 0)) (of_int a / of_int b) of
           PosInfinity \<Rightarrow> Inl OverflowError
         | NegInfinity \<Rightarrow> Inl OverflowError
         | result \<Rightarrow> Inr result))"

text \<open>
  \<^verbatim>\<open>a * b\<close> on two \<^verbatim>\<open>float\<close>, which raises nothing: the product of an infinity and a zero
  is not a number, and a product beyond the largest number is an infinity.
\<close>

fun sign_bit :: "pyfloat \<Rightarrow> bool" where
  "sign_bit (Finite x) = (x < 0)"
| "sign_bit NegZero = True"
| "sign_bit NegInfinity = True"
| "sign_bit PosInfinity = False"
| "sign_bit NaN = False"

fun finite_value :: "pyfloat \<Rightarrow> real option" where
  "finite_value (Finite x) = Some x"
| "finite_value NegZero = Some 0"
| "finite_value f = None"

definition float_mul :: "pyfloat \<Rightarrow> pyfloat \<Rightarrow> pyfloat" where
  "float_mul a b =
     (if a = NaN \<or> b = NaN then NaN
      else
        (case (finite_value a, finite_value b) of
           (Some x, Some y) \<Rightarrow> rounded (sign_bit a \<noteq> sign_bit b) (x * y)
         | (Some x, None) \<Rightarrow>
             if x = 0 then NaN
             else if sign_bit a \<noteq> sign_bit b then NegInfinity else PosInfinity
         | (None, Some y) \<Rightarrow>
             if y = 0 then NaN
             else if sign_bit a \<noteq> sign_bit b then NegInfinity else PosInfinity
         | (None, None) \<Rightarrow>
             if sign_bit a \<noteq> sign_bit b then NegInfinity else PosInfinity))"

section \<open>Regular expression search\<close>

text \<open>
  The two patterns of \<^verbatim>\<open>_parse_json_response\<close> are built from the pieces below, each the
  backtracking matcher of one construct of Python's \<^verbatim>\<open>re\<close>: a matcher takes the matcher of
  what follows it in the pattern (which returns the result of the whole match, or \<open>None\<close>
  where it fails) and the text from the current position on, and tries its alternatives in
  the order of the engine. A greedy star takes one more character first and gives it back
  when the rest fails; a lazy star tries the rest first and takes one more character when
  that fails. \<open>re_group\<close> hands the text its matcher consumed to what follows, and
  \<open>re_search\<close> tries the start positions from left to right.
\<close>

type_synonym 'a cont = "pystr \<Rightarrow> 'a option"

definition re_lit :: "pystr \<Rightarrow> 'a cont \<Rightarrow> 'a cont" where
  "re_lit l k r = (if prefix l r then k (drop (length l) r) else None)"

definition re_opt :: "('a cont \<Rightarrow> 'a cont) \<Rightarrow> 'a cont \<Rightarrow> 'a cont" where
  "re_opt m k r = (case m k r of Some x \<Rightarrow> Some x | None \<Rightarrow> k r)"

fun re_star :: "(nat \<Rightarrow> bool) \<Rightarrow> 'a cont \<Rightarrow> 'a cont" where
  "re_star p k [] = k []"
| "re_star p k (c # cs) =
     (if p c then (case re_star p k cs of Some x \<Rightarrow> Some x | None \<Rightarrow> k (c # cs))
      else k (c # cs))"

fun re_lazy_star :: "(nat \<Rightarrow> bool) \<Rightarrow> 'a cont \<Rightarrow> 'a cont" where
  "re_lazy_star p k [] = k []"
| "re_lazy_star p k (c # cs) =
     (case k (c # cs) of Some x \<Rightarrow> Some x
      | None \<Rightarrow> if p c then re_lazy_star p k cs else None)"

definition re_group :: "('a cont \<Rightarrow> 'a cont) \<Rightarrow> (pystr \<Rightarrow> 'a cont) \<Rightarrow> 'a cont" where
  "re_group m k r = m (\<lambda>rest. k (take (length r - length rest) r) rest) r"

fun re_search :: "'a cont \<Rightarrow> 'a cont" where
  "re_search m [] = m []"
| "re_search m (c # cs) = (case m (c # cs) of Some x \<Rightarrow> Some x | None \<Rightarrow> re_search m cs)"

text \<open>
  \<^verbatim>\<open>```(?:json)?\s*([\s\S]*?)\s*```\<close>, returning group 1, and \<^verbatim>\<open>\{[\s\S]*\}\<close>, returning
  group 0. The class \<^verbatim>\<open>[\s\S]\<close> holds every character.
\<close>

definition fenced_block :: "pystr cont" where
  "fenced_block =
     re_lit (ascii ''```'') (re_opt (re_lit (ascii ''json'')) (re_star isspace
       (re_group (re_lazy_star (\<lambda>c. True))
          (\<lambda>g. re_star isspace (re_lit (ascii ''```'') (\<lambda>rest. Some g))))))"

definition brace_span :: "pystr cont" where
  "brace_span =
     re_group (\<lambda>k. re_lit (ascii ''{'') (re_star (\<lambda>c. True) (re_lit (ascii ''}'') k)))
       (\<lambda>g rest. Some g)"

section \<open>The model handler\<close>

text \<open>
  \<^verbatim>\<open>json.loads\<close> is a parameter of the model, \<open>loads\<close>, with the three outcomes it has on a
  text: it returns a value, it raises \<^verbatim>\<open>JSONDecodeError\<close>, or it raises an exception of
  another class (a plain \<^verbatim>\<open>ValueError\<close> on an integer of more digits than the interpreter
  converts, a \<^verbatim>\<open>RecursionError\<close> on deep nesting).
\<close>

datatype loads_result = Returns pyval | JSONDecodeError | Raises py_error

text \<open>
  One attempt of \<^verbatim>\<open>_parse_json_response\<close>, which is
  \<^verbatim>\<open>try: return json.loads(t)\<close> with \<^verbatim>\<open>except json.JSONDecodeError: pass\<close>: it ends the
  function, with the value or with the exception that is not caught, or it passes on to
  what follows (\<open>None\<close>).
\<close>

definition try_loads :: "(pystr \<Rightarrow> loads_result) \<Rightarrow> pystr \<Rightarrow> (py_error + pyval) option" where
  "try_loads loads t =
     (case loads t of
        Returns v \<Rightarrow> Some (Inr v)
      | JSONDecodeError \<Rightarrow> None
      | Raises e \<Rightarrow> Some (Inl e))"

text \<open>\<^verbatim>\<open>_parse_json_response\<close> of \<^verbatim>\<open>llm_handler.py\<close>.\<close>

definition parse_json_response :: "(pystr \<Rightarrow> loads_result) \<Rightarrow> pystr \<Rightarrow> py_error + pyval" where
  "parse_json_response loads response_text =
     (case try_loads loads response_text of
        Some result \<Rightarrow> result
      | None \<Rightarrow>
          (case (case re_search fenced_block response_text of
                   Some group1 \<Rightarrow> try_loads loads group1
                 | None \<Rightarrow> None) of
             Some result \<Rightarrow> result
           | None \<Rightarrow>
               (case (case re_search brace_span response_text of
                        Some group0 \<Rightarrow> try_loads loads group0
                      | None \<Rightarrow> None) of
                  Some result \<Rightarrow> result
                | None \<Rightarrow> Inl (ValueError (ascii ''Could not parse JSON from response'')))))"

text \<open>
  The completion service is the environment of the program. An \<^verbatim>\<open>AdaptiveLLM\<close> is modelled
  by what its calls will give, whatever their prompts: \<open>outcomes n\<close> is the text the call
  number \<open>n\<close> returns, or the message of the exception it raises, and \<open>calls\<close> counts the
  calls made so far. The prompts the handler builds are not modelled.
\<close>

datatype chat_result = ChatRaises pystr | ChatReturns pystr

record adaptive_llm =
  outcomes :: "nat \<Rightarrow> chat_result"
  calls :: nat

definition call_chat :: "adaptive_llm \<Rightarrow> chat_result \<times> adaptive_llm" where
  "call_chat llm = (outcomes llm (calls llm), llm\<lparr>calls := Suc (calls llm)\<rparr>)"

text \<open>
  A question is the dictionary \<^verbatim>\<open>generate_question\<close> returns. Both of its paths store the
  integer \<^verbatim>\<open>difficulty\<close> and the string \<^verbatim>\<open>difficulty_name\<close> under these keys, over whatever
  the decoded object held there: the record keeps the two in fields of their own, typed,
  and the other keys in \<open>q_data\<close>.
\<close>

record question =
  q_data :: "(pystr \<times> pyval) list"
  q_difficulty :: int
  q_difficulty_name :: pystr

definition DIFFICULTY_LEVELS :: "(int \<times> pystr) list" where
  "DIFFICULTY_LEVELS = [(1, ascii ''easy''), (2, ascii ''medium''), (3, ascii ''hard'')]"

text \<open>The dictionary of the \<^verbatim>\<open>except\<close> branch of \<^verbatim>\<open>generate_question\<close>.\<close>

definition error_question :: "pystr \<Rightarrow> int \<Rightarrow> pystr \<Rightarrow> question" where
  "error_question error_msg difficulty difficulty_name =
     \<lparr>q_data =
        [(ascii ''question'', VStr (ascii ''Error: '' @ error_msg)),
         (ascii ''options'', VDict
            [(ascii ''A'', VStr (ascii ''Option A'')), (ascii ''B'', VStr (ascii ''Option B'')),
             (ascii ''C'', VStr (ascii ''Option C'')), (ascii ''D'', VStr (ascii ''Option D''))]),
         (ascii ''correct_answer'', VStr (ascii ''A'')),
         (ascii ''explanation'', VStr (ascii ''Error details: '' @ error_msg)),
         (ascii ''topic'', VStr (ascii ''Unknown'')),
         (ascii ''error'', VBool True),
         (ascii ''error_message'', VStr error_msg)],
      q_difficulty = difficulty,
      q_difficulty_name = difficulty_name\<rparr>"

text \<open>
  The message of the \<^verbatim>\<open>TypeError\<close> that \<^verbatim>\<open>question_data["difficulty"] = difficulty\<close> raises
  when the decoded value is not a dictionary; the type name stands between apostrophes
  (code point 39).
\<close>

definition no_item_assignment :: "string \<Rightarrow> pystr" where
  "no_item_assignment type_name =
     [39] @ ascii type_name @ [39] @ ascii '' object does not support item assignment''"

fun item_assignment_error :: "pyval \<Rightarrow> pystr" where
  "item_assignment_error (VList xs) = ascii ''list indices must be integers or slices, not str''"
| "item_assignment_error VNone = no_item_assignment ''NoneType''"
| "item_assignment_error (VBool b) = no_item_assignment ''bool''"
| "item_assignment_error (VInt i) = no_item_assignment ''int''"
| "item_assignment_error (VFloat f) = no_item_assignment ''float''"
| "item_assignment_error (VStr t) = no_item_assignment ''str''"
| "item_assignment_error (VDict d) = []"

text \<open>
  \<^verbatim>\<open>str(e)\<close> for an exception of the model. The model keeps a message for the two classes
  whose message the programs read, and these are the classes of what
  \<^verbatim>\<open>_parse_json_response\<close> raises: on a string \<^verbatim>\<open>json.loads\<close> raises, besides
  \<^verbatim>\<open>JSONDecodeError\<close>, a plain \<^verbatim>\<open>ValueError\<close> or an exception of a class the model does not
  name.
\<close>

fun message :: "py_error \<Rightarrow> pystr" where
  "message (ValueError m) = m"
| "message (OtherError m) = m"
| "message e = []"

text \<open>
  \<^verbatim>\<open>generate_question\<close>. The content, the questions asked before and the topic shape the
  prompt only. Every exception of the \<^verbatim>\<open>try\<close> block ends in the error dictionary, with
  the message of the exception.
\<close>

definition generate_question ::
  "(pystr \<Rightarrow> loads_result) \<Rightarrow> adaptive_llm \<Rightarrow> pystr \<Rightarrow> int \<Rightarrow> pyval list \<Rightarrow> pystr option \<Rightarrow>
   question \<times> adaptive_llm" where
  "generate_question loads llm content difficulty asked_questions topic_focus =
     (let difficulty_name =
            (case map_of DIFFICULTY_LEVELS difficulty of
               Some name \<Rightarrow> name
             | None \<Rightarrow> ascii ''medium'');
          (response, llm') = call_chat llm
      in (case response of
            ChatRaises error_msg \<Rightarrow> error_question error_msg difficulty difficulty_name
          | ChatReturns response_text \<Rightarrow>
              (case parse_json_response loads response_text of
                 Inl e \<Rightarrow> error_question (message e) difficulty difficulty_name
               | Inr (VDict question_data) \<Rightarrow>
                   \<lparr>q_data = question_data, q_difficulty = difficulty,
                    q_difficulty_name = difficulty_name\<rparr>
               | Inr other \<Rightarrow>
                   error_question (item_assignment_error other) difficulty difficulty_name),
          llm'))"

text \<open>
  A formatted string is kept as its parts: literal text and, unrendered, the values an
  f-string formats into it.
\<close>

datatype piece = Text pystr | Value pyval

record feedback =
  is_correct :: bool
  feedback_text :: "piece list"
  suggestion :: "piece list option"
  difficulty_change :: "pystr option"

text \<open>
  \<^verbatim>\<open>evaluate_answer\<close>. \<open>upper\<close> is \<^verbatim>\<open>str.upper\<close>, a parameter of the model. The returned
  dictionary has no \<^verbatim>\<open>difficulty_change\<close> yet: the caller adds it. The success text ends
  with the four characters U+00F0, U+0178, U+017D, U+2030 of the source.
\<close>

definition evaluate_answer ::
  "(pystr \<Rightarrow> pystr) \<Rightarrow> adaptive_llm \<Rightarrow> pyval \<Rightarrow> pystr \<Rightarrow> pystr \<Rightarrow> (pystr \<times> pyval) list \<Rightarrow> pystr \<Rightarrow>
   feedback \<times> adaptive_llm" where
  "evaluate_answer upper llm question_text user_answer correct_answer options content =
     (if upper user_answer = upper correct_answer then
        (\<lparr>is_correct = True,
          feedback_text = [Text (ascii ''Correct! Well done! '' @ [240, 376, 381, 8240])],
          suggestion = None, difficulty_change = None\<rparr>, llm)
      else
        (let (response, llm') = call_chat llm
         in (case response of
               ChatReturns text \<Rightarrow>
                 \<lparr>is_correct = False, feedback_text = [Text text],
                  suggestion = Some [Text (ascii ''Review the topic related to: ''),
                     Value (dict_get options correct_answer (VStr (ascii ''this concept'')))],
                  difficulty_change = None\<rparr>
             | ChatRaises e \<Rightarrow>
                 \<lparr>is_correct = False,
                  feedback_text =
                    [Text (ascii ''The correct answer was '' @ correct_answer @ ascii '': ''),
                     Value (dict_get options correct_answer (VStr []))],
                  suggestion = Some [Text (ascii ''Review this topic for better understanding.'')],
                  difficulty_change = None\<rparr>,
             llm')))"

section \<open>The adaptive difficulty controller\<close>

text \<open>
  \<^verbatim>\<open>calculate_adaptive_difficulty\<close> of \<^verbatim>\<open>app.py\<close>. The performance window is a Python list
  of integers and the difficulty a Python integer, both unbounded. The slice
  \<^verbatim>\<open>performance_window[-3:]\<close> is taken only when the list has at least three entries, where
  it is the list without its first \<open>len - 3\<close> entries.
\<close>

definition calculate_adaptive_difficulty :: "int list \<Rightarrow> int \<Rightarrow> int" where
  "calculate_adaptive_difficulty performance_window current_difficulty =
     (if length performance_window < 3 then current_difficulty
      else
        let recent = drop (length performance_window - 3) performance_window;
            correct_count = sum_list recent
        in if correct_count \<ge> 2 \<and> current_difficulty < 3 then current_difficulty + 1
           else if correct_count \<le> 1 \<and> current_difficulty > 1 then current_difficulty - 1
           else current_difficulty)"

text \<open>
  Calling the controller again and again, as a session does: before each call some more
  entries are appended to the window, and the result of the call is the difficulty of the
  next one. The list holds what is appended before each call.
\<close>

fun repeated_calls :: "int list \<Rightarrow> int \<Rightarrow> int list list \<Rightarrow> int" where
  "repeated_calls window current [] = current"
| "repeated_calls window current (bits # rest) =
     repeated_calls (window @ bits) (calculate_adaptive_difficulty (window @ bits) current) rest"

section \<open>The assessment session\<close>

text \<open>
  A history entry is the dictionary \<^verbatim>\<open>render_question\<close> appends to
  \<^verbatim>\<open>questions_history\<close>, its only producer: always these seven keys, so the readers'
  \<^verbatim>\<open>q.get(key, default)\<close> is the field. The topic is whatever the question holds under
  \<^verbatim>\<open>topic\<close>; the functions that only compare topics are stated for any type of topic.
\<close>

record 't history_entry =
  h_question :: pyval
  h_topic :: 't
  h_difficulty :: int
  h_user_answer :: pystr
  h_correct_answer :: pystr
  h_is_correct :: bool
  h_explanation :: pyval

text \<open>
  \<^verbatim>\<open>get_weak_topics\<close> of \<^verbatim>\<open>report_generator.py\<close>: the loop over the history, with the list
  it builds.
\<close>

fun weak_topics_loop :: "'t history_entry list \<Rightarrow> 't list \<Rightarrow> 't list" where
  "weak_topics_loop [] weak_topics = weak_topics"
| "weak_topics_loop (q # rest) weak_topics =
     weak_topics_loop rest
       (if \<not> h_is_correct q then
          (let topic = h_topic q
           in if topic \<notin> set weak_topics then weak_topics @ [topic] else weak_topics)
        else weak_topics)"

definition get_weak_topics :: "'t history_entry list \<Rightarrow> 't list" where
  "get_weak_topics questions_history = weak_topics_loop questions_history []"

text \<open>
  The order the specification gives the weak topics: by the position, in the history, of
  the first incorrect answer on the topic (the length of the history when there is none).
\<close>

definition first_incorrect_index :: "'t history_entry list \<Rightarrow> 't \<Rightarrow> nat" where
  "first_incorrect_index h t =
     length (takeWhile (\<lambda>q. \<not> (\<not> h_is_correct q \<and> h_topic q = t)) h)"

text \<open>
  The keys of \<^verbatim>\<open>st.session_state\<close> that the assessment reads and writes. \<^verbatim>\<open>pdf_content\<close> and
  \<^verbatim>\<open>llm\<close> are \<^verbatim>\<open>None\<close> until the sidebar stores the text of a document and a handler; the
  welcome page offers the start button only after both, so the model holds a text and a
  handler from the beginning. \<^verbatim>\<open>pdf_name\<close> and \<^verbatim>\<open>api_key\<close> are left out.
\<close>

record session_state =
  pdf_content :: pystr
  llm :: adaptive_llm
  current_question :: "question option"
  questions_history :: "pyval history_entry list"
  current_difficulty :: int
  performance_window :: "int list"
  assessment_started :: bool
  assessment_complete :: bool
  total_questions :: int
  correct_answers :: int
  asked_questions :: "pyval list"
  show_feedback :: bool
  last_feedback :: "feedback option"
  max_difficulty_reached :: int

text \<open>The defaults of \<^verbatim>\<open>init_session_state\<close>.\<close>

definition init_session_state :: "pystr \<Rightarrow> adaptive_llm \<Rightarrow> session_state" where
  "init_session_state content handler =
     \<lparr>pdf_content = content, llm = handler, current_question = None, questions_history = [],
      current_difficulty = 1, performance_window = [], assessment_started = False,
      assessment_complete = False, total_questions = 0, correct_answers = 0,
      asked_questions = [], show_feedback = False, last_feedback = None,
      max_difficulty_reached = 1\<rparr>"

text \<open>
  \<^verbatim>\<open>get_performance_metrics\<close>. The accuracy and the mean difficulty are the \<^verbatim>\<open>int\<close> 0 and
  1 of the guarded branches, or the \<^verbatim>\<open>float\<close> of a division; \<^verbatim>\<open>(correct / total) * 100\<close>
  rounds twice, once in the division and once in the product with the \<^verbatim>\<open>float\<close> of 100.
  An exception of a division leaves the function.
\<close>

record metrics =
  m_total_questions :: int
  m_correct_answers :: int
  accuracy :: pyval
  avg_difficulty :: pyval
  m_max_difficulty_reached :: int
  m_current_difficulty :: int

definition get_performance_metrics :: "session_state \<Rightarrow> py_error + metrics" where
  "get_performance_metrics st =
     (let total = total_questions st;
          correct = correct_answers st
      in case (if total = 0 then Inr (VInt 0, VInt 1)
               else
                 (case int_truediv correct total of
                    Inl e \<Rightarrow> Inl e
                  | Inr ratio \<Rightarrow>
                      (let accuracy = VFloat (float_mul ratio (Finite 100));
                           difficulties = map h_difficulty (questions_history st)
                       in if difficulties \<noteq> [] then
                            (case int_truediv (sum_list difficulties)
                                    (int (length difficulties)) of
                               Inl e \<Rightarrow> Inl e
                             | Inr average \<Rightarrow> Inr (accuracy, VFloat average))
                          else Inr (accuracy, VInt 1)))) of
           Inl e \<Rightarrow> Inl e
         | Inr computed \<Rightarrow>
             (let (accuracy, avg_difficulty) = computed
              in Inr \<lparr>m_total_questions = total, m_correct_answers = correct,
                      accuracy = accuracy, avg_difficulty = avg_difficulty,
                      m_max_difficulty_reached = max_difficulty_reached st,
                      m_current_difficulty = current_difficulty st\<rparr>))"

text \<open>
  One run of the script is started by at most one widget: \<open>click\<close> says which button was
  pressed, and for the submit button what \<^verbatim>\<open>st.radio\<close> returns, \<^verbatim>\<open>None\<close> when the question
  offers no option. A button acts only in a run that reaches it. A run ends at the end of
  the page, by \<^verbatim>\<open>st.rerun()\<close>, or by an exception nothing catches; in each case the session
  keeps what the run has stored so far.
\<close>

datatype click =
    NoClick
  | StartAssessment
  | TryAgain
  | SubmitAnswer "pystr option"
  | NextQuestion
  | FinishAssessment
  | StartNewAssessment

datatype run_end = Rendered | Rerun | Raised py_error

text \<open>
  The body of the submit button of \<^verbatim>\<open>render_question\<close>, from the call of
  \<^verbatim>\<open>evaluate_answer\<close> to \<^verbatim>\<open>st.rerun()\<close>, for an answer and a correct answer that are strings.
\<close>

definition submit_answer ::
  "(pystr \<Rightarrow> pystr) \<Rightarrow> question \<Rightarrow> (pystr \<times> pyval) list \<Rightarrow> pystr \<Rightarrow> pystr \<Rightarrow> session_state \<Rightarrow>
   session_state" where
  "submit_answer upper question options answer correct_answer st =
     (let (feedback, llm') =
            evaluate_answer upper (llm st) (dict_get (q_data question) (ascii ''question'') (VStr []))
              answer correct_answer options (pdf_content st);
          correct = is_correct feedback;
          window = performance_window st @ [if correct then 1 else 0];
          new_difficulty = calculate_adaptive_difficulty window (current_difficulty st);
          entry =
            \<lparr>h_question = dict_get (q_data question) (ascii ''question'') (VStr []),
             h_topic = dict_get (q_data question) (ascii ''topic'') (VStr (ascii ''General'')),
             h_difficulty = q_difficulty question,
             h_user_answer = answer,
             h_correct_answer = correct_answer,
             h_is_correct = correct,
             h_explanation = dict_get (q_data question) (ascii ''explanation'') (VStr [])\<rparr>;
          change =
            (if new_difficulty > current_difficulty st
             then Some ([128200] @ ascii '' Great job! Difficulty increased!'')
             else if new_difficulty < current_difficulty st
             then Some ([128201] @ ascii '' Don't worry! Adjusting difficulty to help you learn.'')
             else None)
      in st\<lparr>llm := llm',
            total_questions := total_questions st + 1,
            correct_answers := (if correct then correct_answers st + 1 else correct_answers st),
            performance_window := window,
            max_difficulty_reached :=
              (if new_difficulty > max_difficulty_reached st then new_difficulty
               else max_difficulty_reached st),
            questions_history := questions_history st @ [entry],
            current_difficulty := new_difficulty,
            last_feedback := Some (feedback\<lparr>difficulty_change := change\<rparr>),
            show_feedback := True\<rparr>)"

text \<open>
  \<^verbatim>\<open>render_question\<close>, in two parts. Its first block asks for a new question whenever no
  feedback is shown, at the current difficulty.
\<close>

definition request_question :: "(pystr \<Rightarrow> loads_result) \<Rightarrow> session_state \<Rightarrow> session_state" where
  "request_question loads st =
     (if current_question st = None \<or> show_feedback st = False then
        (if \<not> show_feedback st then
           (let (question_data, llm') =
                  generate_question loads (llm st) (pdf_content st) (current_difficulty st)
                    (asked_questions st) None
            in st\<lparr>llm := llm',
                  current_question := Some question_data,
                  asked_questions := asked_questions st @
                    [dict_get (q_data question_data) (ascii ''question'') (VStr [])]\<rparr>)
         else st)
      else st)"

text \<open>
  The rest draws the header, where the metrics are computed and the two difficulty names
  are looked up in a dictionary with the keys 1, 2, 3, and then one of three views, given
  here one by one: the error with its retry button, the answer form, and the feedback
  with the buttons for the next question and the end. In the feedback of an incorrect
  answer the correct answer is looked up in the options.
\<close>

definition error_view :: "click \<Rightarrow> session_state \<Rightarrow> run_end \<times> session_state" where
  "error_view pressed st =
     (if pressed = TryAgain then (Rerun, st\<lparr>current_question := None\<rparr>) else (Rendered, st))"

definition answer_form ::
  "(pystr \<Rightarrow> pystr) \<Rightarrow> click \<Rightarrow> question \<Rightarrow> session_state \<Rightarrow> run_end \<times> session_state" where
  "answer_form upper pressed question st =
     (case dict_get (q_data question) (ascii ''options'') (VDict []) of
        VDict options \<Rightarrow>
          (case pressed of
             SubmitAnswer answer \<Rightarrow>
               (case (answer, dict_get (q_data question) (ascii ''correct_answer'') (VStr [])) of
                  (Some user_answer, VStr correct_answer) \<Rightarrow>
                    (Rerun, submit_answer upper question options user_answer correct_answer st)
                | _ \<Rightarrow> (Raised AttributeError, st))
           | _ \<Rightarrow> (Rendered, st))
      | _ \<Rightarrow> (Raised AttributeError, st))"

definition feedback_view :: "click \<Rightarrow> question \<Rightarrow> session_state \<Rightarrow> run_end \<times> session_state" where
  "feedback_view pressed question st =
     (case last_feedback st of
        None \<Rightarrow> (Raised TypeError, st)
      | Some feedback \<Rightarrow>
          (case (if is_correct feedback then None
                 else (case dict_get (q_data question) (ascii ''options'') (VDict []) of
                         VDict options \<Rightarrow>
                           (case dict_get (q_data question) (ascii ''correct_answer'') (VStr []) of
                              VList xs \<Rightarrow> Some TypeError
                            | VDict d \<Rightarrow> Some TypeError
                            | _ \<Rightarrow> None)
                       | _ \<Rightarrow> Some AttributeError)) of
             Some e \<Rightarrow> (Raised e, st)
           | None \<Rightarrow>
               if pressed = NextQuestion then
                 (Rerun, st\<lparr>current_question := None, show_feedback := False,
                            last_feedback := None\<rparr>)
               else if pressed = FinishAssessment then
                 (Rerun, st\<lparr>assessment_complete := True\<rparr>)
               else (Rendered, st)))"

definition render_question ::
  "(pystr \<Rightarrow> loads_result) \<Rightarrow> (pystr \<Rightarrow> pystr) \<Rightarrow> click \<Rightarrow> session_state \<Rightarrow> run_end \<times> session_state" where
  "render_question loads upper pressed st0 =
     (let st = request_question loads st0
      in case get_performance_metrics st of
           Inl e \<Rightarrow> (Raised e, st)
         | Inr metrics \<Rightarrow>
             if current_difficulty st \<notin> {1, 2, 3} \<or>
                m_max_difficulty_reached metrics \<notin> {1, 2, 3}
             then (Raised KeyError, st)
             else
               (case current_question st of
                  None \<Rightarrow> (Raised AttributeError, st)
                | Some question \<Rightarrow>
                    if truthy (dict_get (q_data question) (ascii ''error'') VNone)
                    then error_view pressed st
                    else if q_difficulty question \<notin> {1, 2, 3} then (Raised KeyError, st)
                    else if \<not> show_feedback st then answer_form upper pressed question st
                    else feedback_view pressed question st))"

text \<open>
  The events of a session: a run of \<^verbatim>\<open>main\<close> with a button pressed or none, and the upload
  of a new document, on which the sidebar resets the assessment. In a run, the sidebar of
  a started assessment computes the metrics and looks up the name of the current
  difficulty, and the results page does the same with the name of the peak, in
  dictionaries with the keys 1, 2, 3: an exception of the metrics or a missing key ends
  the run there. \<^verbatim>\<open>main\<close> shows the results once the assessment is complete (the only
  button of the model there starts a new assessment), the question while it is started,
  and the welcome page otherwise, whose start button needs a non-empty document.
\<close>

datatype event = Run click | Upload pystr

definition sidebar_upload :: "pystr \<Rightarrow> session_state \<Rightarrow> session_state" where
  "sidebar_upload content st =
     st\<lparr>pdf_content := content, assessment_started := False, assessment_complete := False,
        questions_history := [], total_questions := 0, correct_answers := 0,
        current_difficulty := 1, performance_window := [], asked_questions := [],
        max_difficulty_reached := 1\<rparr>"

definition start_new_assessment :: "session_state \<Rightarrow> session_state" where
  "start_new_assessment st =
     st\<lparr>assessment_started := False, assessment_complete := False, questions_history := [],
        total_questions := 0, correct_answers := 0, current_difficulty := 1,
        performance_window := [], current_question := None, asked_questions := [],
        max_difficulty_reached := 1, show_feedback := False, last_feedback := None\<rparr>"

definition main ::
  "(pystr \<Rightarrow> loads_result) \<Rightarrow> (pystr \<Rightarrow> pystr) \<Rightarrow> event \<Rightarrow> session_state \<Rightarrow> session_state" where
  "main loads upper ev st =
     (case ev of
        Upload content \<Rightarrow> sidebar_upload content st
      | Run pressed \<Rightarrow>
          (case (if assessment_started st then
                   (case get_performance_metrics st of
                      Inl e \<Rightarrow> Some e
                    | Inr metrics \<Rightarrow>
                        if m_current_difficulty metrics \<notin> {1, 2, 3} then Some KeyError
                        else None)
                 else None) of
             Some e \<Rightarrow> st
           | None \<Rightarrow>
               if assessment_complete st then
                 (case get_performance_metrics st of
                    Inl e \<Rightarrow> st
                  | Inr metrics \<Rightarrow>
                      if m_max_difficulty_reached metrics \<notin> {1, 2, 3} then st
                      else if pressed = StartNewAssessment then start_new_assessment st
                      else st)
               else if assessment_started st then snd (render_question loads upper pressed st)
               else if pdf_content st \<noteq> [] \<and> pressed = StartAssessment
               then st\<lparr>assessment_started := True\<rparr>
               else st))"

fun session :: "(pystr \<Rightarrow> loads_result) \<Rightarrow> (pystr \<Rightarrow> pystr) \<Rightarrow> event list \<Rightarrow> session_state \<Rightarrow> session_state" where
  "session loads upper [] st = st"
| "session loads upper (ev # evs) st = session loads upper evs (main loads upper ev st)"

text \<open>
  The scores of a session are its history, its window, its two difficulties and its two
  counters; \<open>same_scores\<close> says that two states agree on them. \<open>scores_consistent\<close> is
  what every state of a session satisfies: the difficulties are levels, the peak bounds
  the current difficulty and every recorded one, no recorded one is below 1, and the
  counters and the window are those of the history.
\<close>

definition same_scores :: "session_state \<Rightarrow> session_state \<Rightarrow> bool" where
  "same_scores st st' \<longleftrightarrow>
     questions_history st' = questions_history st \<and>
     performance_window st' = performance_window st \<and>
     current_difficulty st' = current_difficulty st \<and>
     max_difficulty_reached st' = max_difficulty_reached st \<and>
     total_questions st' = total_questions st \<and>
     correct_answers st' = correct_answers st"

definition scores_consistent :: "session_state \<Rightarrow> bool" where
  "scores_consistent st \<longleftrightarrow>
     current_difficulty st \<in> {1, 2, 3} \<and>
     max_difficulty_reached st \<in> {1, 2, 3} \<and>
     current_difficulty st \<le> max_difficulty_reached st \<and>
     list_all (\<lambda>e. h_difficulty e \<le> max_difficulty_reached st) (questions_history st) \<and>
     list_all (\<lambda>e. 1 \<le> h_difficulty e) (questions_history st) \<and>
     total_questions st = int (length (questions_history st)) \<and>
     correct_answers st = int (length (filter h_is_correct (questions_history st))) \<and>
     performance_window st = map (\<lambda>e. if h_is_correct e then 1 else 0) (questions_history st)"

section \<open>The quick revision service\<close>

text \<open>
  \<^verbatim>\<open>snap_learn.py\<close>. A handler fails with an \<^verbatim>\<open>HTTPException\<close> of a status and a detail, or
  by an exception of another kind that nothing catches, which the server answers with
  status 500.
\<close>

datatype http_error = HTTPException nat pystr | Uncaught py_error

text \<open>\<^verbatim>\<open>llm\<close> of \<^verbatim>\<open>snap_learn.py\<close>, on the outcome of its call of the completion service.\<close>

definition llm_reply :: "chat_result \<Rightarrow> http_error + pystr" where
  "llm_reply r =
     (case r of
        ChatRaises e \<Rightarrow> Inl (Uncaught (OtherError e))
      | ChatReturns text \<Rightarrow>
          (let t = strip text
           in if t = [] then Inl (HTTPException 500 (ascii ''AI returned empty response''))
              else Inr t))"

text \<open>
  The operators the handler applies to the decoded response, on every value:
  \<^verbatim>\<open>key in v\<close>, \<^verbatim>\<open>v[key]\<close>, \<^verbatim>\<open>len(v)\<close> and \<^verbatim>\<open>v[:10]\<close>. Slicing a dictionary raises a
  \<^verbatim>\<open>TypeError\<close> or, from Python 3.12 on, a \<^verbatim>\<open>KeyError\<close>, uncaught either way.
\<close>

fun substring :: "pystr \<Rightarrow> pystr \<Rightarrow> bool" where
  "substring sub [] = (sub = [])"
| "substring sub (c # cs) = (prefix sub (c # cs) \<or> substring sub cs)"

fun py_in :: "pystr \<Rightarrow> pyval \<Rightarrow> py_error + bool" where
  "py_in key (VDict d) = Inr (key \<in> set (map fst d))"
| "py_in key (VList xs) = Inr (VStr key \<in> set xs)"
| "py_in key (VStr t) = Inr (substring key t)"
| "py_in key v = Inl TypeError"

fun py_item :: "pyval \<Rightarrow> pystr \<Rightarrow> py_error + pyval" where
  "py_item (VDict d) key = (case map_of d key of Some v \<Rightarrow> Inr v | None \<Rightarrow> Inl KeyError)"
| "py_item v key = Inl TypeError"

fun py_len :: "pyval \<Rightarrow> py_error + nat" where
  "py_len (VList xs) = Inr (length xs)"
| "py_len (VDict d) = Inr (length d)"
| "py_len (VStr t) = Inr (length t)"
| "py_len v = Inl TypeError"

fun first_ten :: "pyval \<Rightarrow> py_error + pyval" where
  "first_ten (VList xs) = Inr (VList (take 10 xs))"
| "first_ten (VStr t) = Inr (VStr (take 10 t))"
| "first_ten v = Inl TypeError"

text \<open>\<^verbatim>\<open>revise\<close> from the first check of the decoded response on.\<close>

definition revise_parsed :: "pyval \<Rightarrow> http_error + pyval" where
  "revise_parsed parsed =
     (case (case py_in (ascii ''key_concepts'') parsed of
              Inl e \<Rightarrow> Inl e
            | Inr False \<Rightarrow> Inr True
            | Inr True \<Rightarrow>
                (case py_item parsed (ascii ''key_concepts'') of
                   Inl e \<Rightarrow> Inl e
                 | Inr v \<Rightarrow> Inr (\<not> truthy v))) of
        Inl e \<Rightarrow> Inl (Uncaught e)
      | Inr True \<Rightarrow> Inl (HTTPException 500 (ascii ''No key concepts generated''))
      | Inr False \<Rightarrow>
          (case parsed of
             VDict d \<Rightarrow>
               (let mcqs = dict_get d (ascii ''mcqs'') (VList [])
                in (case py_len mcqs of
                      Inl e \<Rightarrow> Inl (Uncaught e)
                    | Inr n \<Rightarrow>
                        if n < 10 then
                          Inl (HTTPException 500
                                 (ascii ''AI returned only '' @ str_nat n @ ascii '' MCQs''))
                        else
                          (case first_ten mcqs of
                             Inl e \<Rightarrow> Inl (Uncaught e)
                           | Inr ten \<Rightarrow>
                               Inr (VDict [(ascii ''analysis'',
                                            VDict (dict_set d (ascii ''mcqs'') ten))]))))
           | _ \<Rightarrow> Inl (Uncaught AttributeError)))"

text \<open>
  \<^verbatim>\<open>revise\<close>, on the documents the store returns for the chunk and the outcome of the call
  of the completion service.
\<close>

definition revise ::
  "(pystr \<Rightarrow> loads_result) \<Rightarrow> pystr list \<Rightarrow> chat_result \<Rightarrow> http_error + pyval" where
  "revise loads documents outcome =
     (if documents = [] then Inl (HTTPException 404 (ascii ''Chunk not found''))
      else
        (case llm_reply outcome of
           Inl e \<Rightarrow> Inl e
         | Inr raw \<Rightarrow>
             (case loads raw of
                Returns parsed \<Rightarrow> revise_parsed parsed
              | _ \<Rightarrow> Inl (HTTPException 500 (ascii ''Invalid JSON from AI:'' @ [10] @ raw)))))"

section \<open>Properties of the controller\<close>

lemma calculate_adaptive_difficulty_last3:
  "length recent = 3 \<Longrightarrow>
   calculate_adaptive_difficulty (older @ recent) current =
     (if sum_list recent \<ge> 2 \<and> current < 3 then current + 1
      else if sum_list recent \<le> 1 \<and> current > 1 then current - 1
      else current)"
  by (simp add: calculate_adaptive_difficulty_def Let_def)

lemma calculate_adaptive_difficulty_range:
  "1 \<le> current \<Longrightarrow> current \<le> 3 \<Longrightarrow>
   1 \<le> calculate_adaptive_difficulty window current \<and>
   calculate_adaptive_difficulty window current \<le> 3"
  by (simp add: calculate_adaptive_difficulty_def Let_def)

text \<open>
  Claim C1. On a window of correctness bits with at least three entries and a difficulty
  among 1, 2, 3, the controller reads the last three entries only: the result is the same
  whatever stands before them, and with \<open>correct_count\<close> their sum it is \<open>current + 1\<close> when
  \<open>correct_count \<ge> 2\<close> and \<open>current < 3\<close>, \<open>current - 1\<close> when \<open>correct_count \<le> 1\<close> and
  \<open>current > 1\<close>, and \<open>current\<close> otherwise. Window \<open>[1,1,0]\<close> at difficulty 1 gives 2, window
  \<open>[0,0,1]\<close> at difficulty 2 gives 1, and window \<open>[1,0,1,0,1]\<close> at difficulty 2 gives 3.
\<close>

theorem next_difficulty_last_three:
  assumes "length window \<ge> 3" and "set window \<subseteq> {0, 1}" and "current \<in> {1, 2, 3}"
  shows "calculate_adaptive_difficulty window current =
           (let correct_count = sum_list (drop (length window - 3) window)
            in if correct_count \<ge> 2 \<and> current < 3 then current + 1
               else if correct_count \<le> 1 \<and> current > 1 then current - 1
               else current) \<and>
         calculate_adaptive_difficulty (older @ drop (length window - 3) window) current =
           calculate_adaptive_difficulty window current \<and>
         calculate_adaptive_difficulty [1, 1, 0] 1 = 2 \<and>
         calculate_adaptive_difficulty [0, 0, 1] 2 = 1 \<and>
         calculate_adaptive_difficulty [1, 0, 1, 0, 1] 2 = 3"
proof -
  let ?recent = "drop (length window - 3) window"
  have len: "length ?recent = 3"
    using assms(1) by simp
  have whole: "calculate_adaptive_difficulty window current =
      (if sum_list ?recent \<ge> 2 \<and> current < 3 then current + 1
       else if sum_list ?recent \<le> 1 \<and> current > 1 then current - 1
       else current)"
    using calculate_adaptive_difficulty_last3 [OF len, of "take (length window - 3) window" current]
    by simp
  have rule: "calculate_adaptive_difficulty window current =
           (let correct_count = sum_list ?recent
            in if correct_count \<ge> 2 \<and> current < 3 then current + 1
               else if correct_count \<le> 1 \<and> current > 1 then current - 1
               else current)"
    using whole by (simp add: Let_def)
  have older: "calculate_adaptive_difficulty (older @ ?recent) current =
           calculate_adaptive_difficulty window current"
    using calculate_adaptive_difficulty_last3 [OF len, of older current] whole by simp
  have ex1: "calculate_adaptive_difficulty [1, 1, 0] 1 = 2"
    by (simp add: calculate_adaptive_difficulty_def)
  have ex2: "calculate_adaptive_difficulty [0, 0, 1] 2 = 1"
    by (simp add: calculate_adaptive_difficulty_def)
  have ex3: "calculate_adaptive_difficulty [1, 0, 1, 0, 1] 2 = 3"
    by (simp add: calculate_adaptive_difficulty_def)
  from rule older ex1 ex2 ex3 show ?thesis
    by (intro conjI)
qed

theorem next_difficulty_last_three_witness:
  "length [0, 1, 1, 1 :: int] \<ge> 3 \<and> set [0, 1, 1, 1 :: int] \<subseteq> {0, 1} \<and> (2 :: int) \<in> {1, 2, 3} \<and>
   calculate_adaptive_difficulty [0, 1, 1, 1] 2 = 3 \<and>
   calculate_adaptive_difficulty [0, 0, 0, 1, 1, 1] 2 = calculate_adaptive_difficulty [0, 1, 1, 1] 2"
proof -
  have a: "length [0, 1, 1, 1 :: int] \<ge> 3" by simp
  have b: "set [0, 1, 1, 1 :: int] \<subseteq> {0, 1}" by simp
  have c: "(2 :: int) \<in> {1, 2, 3}" by simp
  show ?thesis
    using a b c next_difficulty_last_three [OF a b c, of "[0, 0, 0]"]
    by (simp add: Let_def)
qed

text \<open>
  Claim C2. On a window with fewer than three entries the controller returns the current
  difficulty unchanged, for every difficulty among 1, 2, 3.
\<close>

theorem next_difficulty_short_window:
  assumes "length window < 3" and "current \<in> {1, 2, 3}"
  shows "calculate_adaptive_difficulty window current = current"
  using assms(1) by (simp add: calculate_adaptive_difficulty_def)

theorem next_difficulty_short_window_witness:
  "length [1, 1 :: int] < 3 \<and> (2 :: int) \<in> {1, 2, 3} \<and> calculate_adaptive_difficulty [1, 1] 2 = 2"
proof -
  have a: "length [1, 1 :: int] < 3" by simp
  have b: "(2 :: int) \<in> {1, 2, 3}" by simp
  show ?thesis
    using a b next_difficulty_short_window [OF a b] by simp
qed

section \<open>Properties of the weak topics\<close>

lemma fi_Cons:
  "first_incorrect_index (q # rest) t =
     (if \<not> h_is_correct q \<and> h_topic q = t then 0 else Suc (first_incorrect_index rest t))"
  by (simp add: first_incorrect_index_def)

lemma weak_topics_loop_set:
  "set (weak_topics_loop h acc) = set acc \<union> {h_topic q | q. q \<in> set h \<and> \<not> h_is_correct q}"
  by (induction h arbitrary: acc) (auto simp: Let_def)

lemma weak_topics_loop_distinct:
  "distinct acc \<Longrightarrow> distinct (weak_topics_loop h acc)"
  by (induction h arbitrary: acc) (auto simp: Let_def)

lemma weak_topics_loop_order:
  "\<exists>ys. weak_topics_loop h acc = acc @ ys \<and> set ys \<inter> set acc = {} \<and>
        sorted_wrt (\<lambda>a b. first_incorrect_index h a < first_incorrect_index h b) ys"
proof (induction h arbitrary: acc)
  case Nil
  then show ?case by simp
next
  case (Cons q rest)
  show ?case
  proof (cases "\<not> h_is_correct q \<and> h_topic q \<notin> set acc")
    case True
    from Cons.IH [of "acc @ [h_topic q]"] obtain ys where
      ys: "weak_topics_loop rest (acc @ [h_topic q]) = (acc @ [h_topic q]) @ ys"
        "set ys \<inter> set (acc @ [h_topic q]) = {}"
        "sorted_wrt (\<lambda>a b. first_incorrect_index rest a < first_incorrect_index rest b) ys"
      by blast
    have ne: "\<forall>y \<in> set ys. y \<noteq> h_topic q" using ys(2) by auto
    have "sorted_wrt (\<lambda>a b. first_incorrect_index (q # rest) a < first_incorrect_index (q # rest) b) ys"
      using ys(3) ne by (auto simp: fi_Cons intro: sorted_wrt_mono_rel [rotated])
    then have "sorted_wrt (\<lambda>a b. first_incorrect_index (q # rest) a < first_incorrect_index (q # rest) b) (h_topic q # ys)"
      using True ne by (auto simp: fi_Cons)
    moreover have "weak_topics_loop (q # rest) acc = acc @ (h_topic q # ys)"
      using True ys(1) by (simp add: Let_def)
    moreover have "set (h_topic q # ys) \<inter> set acc = {}"
      using True ys(2) by auto
    ultimately show ?thesis by blast
  next
    case False
    from Cons.IH [of acc] obtain ys where
      ys: "weak_topics_loop rest acc = acc @ ys" "set ys \<inter> set acc = {}"
        "sorted_wrt (\<lambda>a b. first_incorrect_index rest a < first_incorrect_index rest b) ys"
      by blast
    have ne: "\<forall>y \<in> set ys. \<not> (\<not> h_is_correct q \<and> h_topic q = y)" using ys(2) False by auto
    have "sorted_wrt (\<lambda>a b. first_incorrect_index (q # rest) a < first_incorrect_index (q # rest) b) ys"
      using ys(3) ne by (auto simp: fi_Cons intro: sorted_wrt_mono_rel [rotated])
    moreover have "weak_topics_loop (q # rest) acc = acc @ ys"
      using False ys(1) by (auto simp: Let_def)
    ultimately show ?thesis using ys(2) by blast
  qed
qed

text \<open>
  Claim C6. The weak topics of a history are exactly the topics with at least one
  incorrect entry, each once, in the order of their first incorrect entries; for the
  history of T1 answered correctly, then T2, T1 and T3 answered incorrectly, they are
  T2, T1, T3.
\<close>

theorem weak_topics_first_incorrect_order:
  "set (get_weak_topics h) = {h_topic q | q. q \<in> set h \<and> \<not> h_is_correct q} \<and>
   distinct (get_weak_topics h) \<and>
   sorted_wrt (\<lambda>a b. first_incorrect_index h a < first_incorrect_index h b) (get_weak_topics h) \<and>
   get_weak_topics
     [e1\<lparr>h_topic := ''T1'', h_is_correct := True\<rparr>, e2\<lparr>h_topic := ''T2'', h_is_correct := False\<rparr>,
      e3\<lparr>h_topic := ''T1'', h_is_correct := False\<rparr>, e4\<lparr>h_topic := ''T3'', h_is_correct := False\<rparr>] =
     [''T2'', ''T1'', ''T3'']"
proof -
  have s: "set (get_weak_topics h) = {h_topic q | q. q \<in> set h \<and> \<not> h_is_correct q}"
    unfolding get_weak_topics_def by (simp add: weak_topics_loop_set)
  have d: "distinct (get_weak_topics h)"
    unfolding get_weak_topics_def by (rule weak_topics_loop_distinct) simp
  have o: "sorted_wrt (\<lambda>a b. first_incorrect_index h a < first_incorrect_index h b) (get_weak_topics h)"
    using weak_topics_loop_order [of h "[]"] unfolding get_weak_topics_def by auto
  have x: "get_weak_topics
     [e1\<lparr>h_topic := ''T1'', h_is_correct := True\<rparr>, e2\<lparr>h_topic := ''T2'', h_is_correct := False\<rparr>,
      e3\<lparr>h_topic := ''T1'', h_is_correct := False\<rparr>, e4\<lparr>h_topic := ''T3'', h_is_correct := False\<rparr>] =
     [''T2'', ''T1'', ''T3'']"
    by (simp add: get_weak_topics_def)
  from s d o x show ?thesis by (intro conjI)
qed

section \<open>Properties of the answer evaluation\<close>

text \<open>
  Claim C10. The \<^verbatim>\<open>is_correct\<close> field that \<^verbatim>\<open>evaluate_answer\<close> returns is the equality of
  the upper-cased chosen letter and the upper-cased correct letter, whatever the question
  text, the options, the document and the answers of the model; on a correct answer the
  handler makes no call of the model and returns the same fixed feedback (on an incorrect
  one it makes one call).
\<close>

theorem evaluate_answer_compares_letters:
  "is_correct (fst (evaluate_answer upper handler question_text user_answer correct_answer options content)) =
     (upper user_answer = upper correct_answer) \<and>
   is_correct (fst (evaluate_answer upper handler question_text user_answer correct_answer options content)) =
     is_correct (fst (evaluate_answer upper handler2 question_text2 user_answer correct_answer options2 content2)) \<and>
   (upper user_answer = upper correct_answer \<longrightarrow>
      evaluate_answer upper handler question_text user_answer correct_answer options content =
        (\<lparr>is_correct = True,
          feedback_text = [Text (ascii ''Correct! Well done! '' @ [240, 376, 381, 8240])],
          suggestion = None, difficulty_change = None\<rparr>, handler)) \<and>
   (upper user_answer \<noteq> upper correct_answer \<longrightarrow>
      calls (snd (evaluate_answer upper handler question_text user_answer correct_answer options content)) =
        Suc (calls handler))"
proof -
  have ic: "is_correct (fst (evaluate_answer upper l q user_answer correct_answer opts c)) =
      (upper user_answer = upper correct_answer)" for l q opts c
    by (simp add: evaluate_answer_def call_chat_def Let_def split: chat_result.splits)
  have a: "is_correct (fst (evaluate_answer upper handler question_text user_answer correct_answer options content)) =
     (upper user_answer = upper correct_answer)"
    by (rule ic)
  have b: "is_correct (fst (evaluate_answer upper handler question_text user_answer correct_answer options content)) =
     is_correct (fst (evaluate_answer upper handler2 question_text2 user_answer correct_answer options2 content2))"
    by (simp only: ic)
  have c: "upper user_answer = upper correct_answer \<longrightarrow>
      evaluate_answer upper handler question_text user_answer correct_answer options content =
        (\<lparr>is_correct = True,
          feedback_text = [Text (ascii ''Correct! Well done! '' @ [240, 376, 381, 8240])],
          suggestion = None, difficulty_change = None\<rparr>, handler)"
    by (simp add: evaluate_answer_def)
  have d: "upper user_answer \<noteq> upper correct_answer \<longrightarrow>
      calls (snd (evaluate_answer upper handler question_text user_answer correct_answer options content)) =
        Suc (calls handler)"
    by (simp add: evaluate_answer_def call_chat_def Let_def split: chat_result.splits)
  from a b c d show ?thesis by (intro conjI)
qed

theorem evaluate_answer_compares_letters_witness:
  "is_correct (fst (evaluate_answer (map (\<lambda>c. if 97 \<le> c \<and> c \<le> 122 then c - 32 else c))
       \<lparr>outcomes = (\<lambda>n. ChatReturns (ascii ''Read it again.'')), calls = 4\<rparr>
       (VStr (ascii ''Which one?'')) (ascii ''b'') (ascii ''B'') [(ascii ''B'', VStr (ascii ''this one''))] []))
   \<and> calls (snd (evaluate_answer (map (\<lambda>c. if 97 \<le> c \<and> c \<le> 122 then c - 32 else c))
       \<lparr>outcomes = (\<lambda>n. ChatReturns (ascii ''Read it again.'')), calls = 4\<rparr>
       (VStr (ascii ''Which one?'')) (ascii ''b'') (ascii ''B'') [(ascii ''B'', VStr (ascii ''this one''))] [])) = 4
   \<and> \<not> is_correct (fst (evaluate_answer (map (\<lambda>c. if 97 \<le> c \<and> c \<le> 122 then c - 32 else c))
       \<lparr>outcomes = (\<lambda>n. ChatReturns (ascii ''Read it again.'')), calls = 4\<rparr>
       (VStr (ascii ''Which one?'')) (ascii ''a'') (ascii ''B'') [(ascii ''B'', VStr (ascii ''this one''))] []))
   \<and> calls (snd (evaluate_answer (map (\<lambda>c. if 97 \<le> c \<and> c \<le> 122 then c - 32 else c))
       \<lparr>outcomes = (\<lambda>n. ChatReturns (ascii ''Read it again.'')), calls = 4\<rparr>
       (VStr (ascii ''Which one?'')) (ascii ''a'') (ascii ''B'') [(ascii ''B'', VStr (ascii ''this one''))] [])) = 5"
  using evaluate_answer_compares_letters
      [of "map (\<lambda>c. if 97 \<le> c \<and> c \<le> 122 then c - 32 else c)"
          "\<lparr>outcomes = (\<lambda>n. ChatReturns (ascii ''Read it again.'')), calls = 4\<rparr>"
          "VStr (ascii ''Which one?'')" "ascii ''b''" "ascii ''B''"
          "[(ascii ''B'', VStr (ascii ''this one''))]" "[]"]
    evaluate_answer_compares_letters
      [of "map (\<lambda>c. if 97 \<le> c \<and> c \<le> 122 then c - 32 else c)"
          "\<lparr>outcomes = (\<lambda>n. ChatReturns (ascii ''Read it again.'')), calls = 4\<rparr>"
          "VStr (ascii ''Which one?'')" "ascii ''a''" "ascii ''B''"
          "[(ascii ''B'', VStr (ascii ''this one''))]" "[]"]
  by (simp add: ascii_def)

section \<open>Properties of the response parser\<close>

lemma re_lit_append: "re_lit l k (l @ r) = k r"
  by (simp add: re_lit_def)

lemma re_lit_no_prefix: "\<not> prefix l r \<Longrightarrow> re_lit l k r = None"
  by (simp add: re_lit_def)

lemma re_search_found: "m r = Some x \<Longrightarrow> re_search m r = Some x"
  by (cases r) simp_all

lemma re_search_skip:
  "(\<And>n. n < length pre \<Longrightarrow> m (drop n pre @ r) = None) \<Longrightarrow> re_search m (pre @ r) = re_search m r"
proof (induction pre)
  case Nil
  then show ?case by simp
next
  case (Cons c cs)
  have "m ((c # cs) @ r) = None"
    using Cons.prems [of 0] by simp
  moreover have "re_search m (cs @ r) = re_search m r"
  proof (rule Cons.IH)
    fix n assume "n < length cs"
    then show "m (drop n cs @ r) = None"
      using Cons.prems [of "Suc n"] by simp
  qed
  ultimately show ?case by simp
qed

lemma re_lit_single: "re_lit [b] k (c # cs) = (if c = b then k cs else None)"
  by (auto simp: re_lit_def)

lemma re_lit_nil: "re_lit (b # l) k [] = None"
  by (simp add: re_lit_def)

lemma takeWhile_all_differ:
  "b \<notin> set xs \<Longrightarrow> takeWhile (\<lambda>c. c \<noteq> b) (xs @ b # ys) = xs"
  by (induction xs) auto

lemma suffix_after_last:
  "b \<notin> set post \<Longrightarrow> rev (takeWhile (\<lambda>c. c \<noteq> b) (rev (mid @ b # post))) = post"
  using takeWhile_all_differ [of b "rev post" "rev mid"] by simp

lemma re_star_any_lit:
  "re_star (\<lambda>c. True) (re_lit [b] (\<lambda>rest. Some (f rest))) r =
     (if b \<in> set r then Some (f (rev (takeWhile (\<lambda>c. c \<noteq> b) (rev r)))) else None)"
proof (induction r)
  case Nil
  then show ?case by (simp add: re_lit_nil)
next
  case (Cons c cs)
  show ?case
  proof (cases "b \<in> set cs")
    case True
    then have "takeWhile (\<lambda>c. c \<noteq> b) (rev cs @ [c]) = takeWhile (\<lambda>c. c \<noteq> b) (rev cs)"
      by (simp add: takeWhile_append1)
    then show ?thesis using True Cons.IH by simp
  next
    case False
    have none: "re_star (\<lambda>c. True) (re_lit [b] (\<lambda>rest. Some (f rest))) cs = None"
      using False Cons.IH by simp
    show ?thesis
    proof (cases "c = b")
      case True
      have "takeWhile (\<lambda>c. c \<noteq> b) (rev cs @ [b]) = rev cs"
        using takeWhile_all_differ [of b "rev cs" "[]"] False by simp
      then show ?thesis using True False none by (simp add: re_lit_single)
    next
      case neq: False
      then show ?thesis using False none by (simp add: re_lit_single)
    qed
  qed
qed

lemma brace_span_at:
  "brace_span r =
     (case r of [] \<Rightarrow> None
      | c # cs \<Rightarrow>
          if c = 123 \<and> 125 \<in> set cs
          then Some (take (length r - length (rev (takeWhile (\<lambda>c. c \<noteq> 125) (rev cs)))) r)
          else None)"
proof (cases r)
  case Nil
  then show ?thesis by (simp add: brace_span_def re_group_def re_lit_def ascii_def)
next
  case (Cons c cs)
  have "re_lit [123] k (c # cs) = (if c = 123 then k cs else None)" for k :: "pystr cont"
    by (simp add: re_lit_def)
  then show ?thesis
    using Cons by (simp add: brace_span_def re_group_def ascii_def re_star_any_lit)
qed

lemma brace_span_first_to_last:
  assumes "123 \<notin> set pre" and "125 \<notin> set post"
  shows "re_search brace_span (pre @ [123] @ mid @ [125] @ post) = Some ([123] @ mid @ [125])"
proof -
  have skip: "re_search brace_span (pre @ [123] @ mid @ [125] @ post) =
      re_search brace_span ([123] @ mid @ [125] @ post)"
  proof (rule re_search_skip)
    fix n assume n: "n < length pre"
    then obtain c cs where d: "drop n pre = c # cs"
      by (cases "drop n pre") auto
    then have "c \<in> set pre" by (metis in_set_dropD list.set_intros(1))
    then have "c \<noteq> 123" using assms(1) by auto
    then show "brace_span (drop n pre @ [123] @ mid @ [125] @ post) = None"
      using d by (simp add: brace_span_at)
  qed
  have "brace_span ([123] @ mid @ [125] @ post) = Some ([123] @ mid @ [125])"
    using suffix_after_last [OF assms(2), of mid] by (simp add: brace_span_at)
  then show ?thesis
    using skip re_search_found by simp
qed

lemma brace_span_none:
  "(\<And>pre post. s = pre @ [123] @ post \<Longrightarrow> 125 \<notin> set post) \<Longrightarrow>
   re_search brace_span s = None"
proof (induction s)
  case Nil
  then show ?case by (simp add: brace_span_at)
next
  case (Cons c cs)
  have here: "brace_span (c # cs) = None"
    using Cons.prems [of "[]" cs] by (auto simp: brace_span_at)
  have "re_search brace_span cs = None"
  proof (rule Cons.IH)
    fix pre post assume "cs = pre @ [123] @ post"
    then have "c # cs = (c # pre) @ [123] @ post" by simp
    then show "125 \<notin> set post" by (rule Cons.prems)
  qed
  then show ?case using here by simp
qed

lemma fence_codes: "ascii ''```'' = [96, 96, 96]" "ascii ''``'' = [96, 96]"
  "ascii ''json'' = [106, 115, 111, 110]"
  by (simp_all add: ascii_def)

lemma not_isspace_backtick: "\<not> isspace 96"
  by (simp add: isspace_def)

lemma closing_fence:
  "re_star isspace (re_lit (ascii ''```'') (\<lambda>rest. Some g)) x =
     (if prefix (ascii ''```'') (dropWhile isspace x) then Some g else None)"
proof (induction x)
  case Nil
  then show ?case by (simp add: fence_codes re_lit_nil)
next
  case (Cons c cs)
  show ?case
  proof (cases "isspace c")
    case True
    then have "c \<noteq> 96" using not_isspace_backtick by auto
    then have "re_lit (ascii ''```'') (\<lambda>rest. Some g) (c # cs) = None"
      by (simp add: re_lit_def fence_codes)
    then show ?thesis using True Cons.IH by simp
  next
    case False
    then show ?thesis by (simp add: re_lit_def)
  qed
qed

lemma re_star_takes_all:
  "(\<And>c. c \<in> set ws \<Longrightarrow> p c) \<Longrightarrow> rest = [] \<or> \<not> p (hd rest) \<Longrightarrow> k rest = Some x \<Longrightarrow>
   re_star p k (ws @ rest) = Some x"
proof (induction ws)
  case Nil
  then show ?case by (cases rest) auto
next
  case (Cons w ws)
  then show ?case by simp
qed

lemma re_lazy_star_first:
  "(\<And>n. n < N \<Longrightarrow> K (drop n r) = None) \<Longrightarrow> N \<le> length r \<Longrightarrow> K (drop N r) = Some x \<Longrightarrow>
   re_lazy_star (\<lambda>c. True) K r = Some x"
proof (induction r arbitrary: N)
  case Nil
  then show ?case by simp
next
  case (Cons c cs)
  show ?case
  proof (cases N)
    case 0
    then show ?thesis using Cons.prems(3) by simp
  next
    case (Suc M)
    have here: "K (c # cs) = None"
      using Cons.prems(1) [of 0] Suc by simp
    have "re_lazy_star (\<lambda>c. True) K cs = Some x"
    proof (rule Cons.IH [of M])
      fix n assume "n < M"
      then show "K (drop n cs) = None"
        using Cons.prems(1) [of "Suc n"] Suc by simp
    next
      show "M \<le> length cs" using Cons.prems(2) Suc by simp
    next
      show "K (drop M cs) = Some x" using Cons.prems(3) Suc by simp
    qed
    then show ?thesis using here by simp
  qed
qed

lemma fence_needs_two_more:
  "A \<noteq> [] \<Longrightarrow> prefix (ascii ''```'') (A @ ascii ''```'' @ post) \<Longrightarrow>
   prefix (ascii ''```'') (A @ ascii ''``'')"
proof -
  assume ne: "A \<noteq> []" and p: "prefix (ascii ''```'') (A @ ascii ''```'' @ post)"
  from ne obtain a A1 where A: "A = a # A1" by (cases A) auto
  show ?thesis
  proof (cases A1)
    case Nil
    then show ?thesis using p A by (simp add: fence_codes)
  next
    case (Cons b A2)
    then show ?thesis using p A by (cases A2) (simp_all add: fence_codes)
  qed
qed

lemma interior_group:
  assumes ws2: "\<And>c. c \<in> set ws2 \<Longrightarrow> isspace c"
    and inner: "inner = [] \<or> \<not> isspace (last inner)"
    and free: "\<not> sublist (ascii ''```'') (inner @ ws2 @ ascii ''``'')"
  shows "re_group (re_lazy_star (\<lambda>c. True))
           (\<lambda>g. re_star isspace (re_lit (ascii ''```'') (\<lambda>rest. Some g)))
           (inner @ ws2 @ ascii ''```'' @ post) = Some inner"
proof -
  let ?r = "inner @ ws2 @ ascii ''```'' @ post"
  let ?K = "\<lambda>rest. if prefix (ascii ''```'') (dropWhile isspace rest)
                    then Some (take (length ?r - length rest) ?r) else None"
  have drop_ws2: "dropWhile isspace (ws2 @ ascii ''```'' @ post) = ascii ''```'' @ post"
    using ws2 not_isspace_backtick by (simp add: dropWhile_append2 fence_codes)
  have at_end: "?K (drop (length inner) ?r) = Some inner"
    using drop_ws2 by simp
  have before: "?K (drop n ?r) = None" if n: "n < length inner" for n
  proof -
    let ?u = "drop n inner"
    have u: "?u \<noteq> []" using n by simp
    have ne: "inner \<noteq> []" using n by auto
    then have "last ?u = last inner" using n by simp
    moreover have "last ?u \<in> set ?u" using u by (rule last_in_set)
    ultimately have nonspace: "last ?u \<in> set ?u" "\<not> isspace (last ?u)"
      using inner ne by auto
    let ?v = "dropWhile isspace ?u"
    have v: "?v \<noteq> []"
      using nonspace by (metis dropWhile_eq_Nil_conv)
    have dw: "dropWhile isspace (drop n ?r) = ?v @ ws2 @ ascii ''```'' @ post"
      using nonspace n by (simp add: dropWhile_append1)
    have "\<not> prefix (ascii ''```'') (?v @ ws2 @ ascii ''```'' @ post)"
    proof
      assume "prefix (ascii ''```'') (?v @ ws2 @ ascii ''```'' @ post)"
      then have "prefix (ascii ''```'') ((?v @ ws2) @ ascii ''```'' @ post)" by simp
      then have "prefix (ascii ''```'') ((?v @ ws2) @ ascii ''``'')"
        using v by (intro fence_needs_two_more) auto
      then obtain ss where ss: "(?v @ ws2) @ ascii ''``'' = ascii ''```'' @ ss"
        by (auto simp: prefix_def)
      have "inner = take n inner @ takeWhile isspace ?u @ ?v" by simp
      then have "inner @ ws2 @ ascii ''``'' =
          (take n inner @ takeWhile isspace ?u) @ ascii ''```'' @ ss"
        using ss by (metis append.assoc)
      then have "sublist (ascii ''```'') (inner @ ws2 @ ascii ''``'')"
        unfolding sublist_def by blast
      then show False using free by simp
    qed
    then show ?thesis using dw by simp
  qed
  have "re_lazy_star (\<lambda>c. True) ?K ?r = Some inner"
    using before at_end by (intro re_lazy_star_first [of "length inner"]) auto
  then show ?thesis
    unfolding re_group_def closing_fence .
qed

lemma json_not_prefix:
  assumes "\<not> prefix (ascii ''json'') inner" and "list_all isspace ws"
  shows "\<not> prefix (ascii ''json'') (inner @ ws @ ascii ''```'' @ post)"
proof
  assume p: "prefix (ascii ''json'') (inner @ ws @ ascii ''```'' @ post)"
  let ?Y = "ws @ ascii ''```'' @ post"
  from p assms(1) obtain us where us: "ascii ''json'' = inner @ us" "prefix us ?Y"
    by (auto simp: prefix_append)
  have "us \<noteq> []" using us(1) assms(1) by auto
  then obtain u us1 where u: "us = u # us1" by (cases us) auto
  then have "u \<in> set (ascii ''json'')" using us(1) by (metis in_set_conv_decomp)
  then have uj: "u \<in> {106, 115, 111, 110}" by (simp add: fence_codes)
  have "?Y \<noteq> []" by (simp add: fence_codes)
  from us(2) u have hd: "hd ?Y = u" by (auto simp: prefix_def)
  show False
  proof (cases ws)
    case Nil
    then show ?thesis using hd uj by (simp add: fence_codes)
  next
    case (Cons w ws1)
    then have "isspace u" using hd assms(2) by simp
    then show ?thesis using uj by (auto simp: isspace_def)
  qed
qed

lemma fenced_block_at_fence:
  assumes tag: "tag = ascii ''json'' \<or> (tag = [] \<and> \<not> prefix (ascii ''json'') inner)"
    and ws1: "list_all isspace ws1" and ws2: "list_all isspace ws2"
    and inner: "inner = [] \<or> (\<not> isspace (hd inner) \<and> \<not> isspace (last inner))"
    and free: "\<not> sublist (ascii ''```'') (inner @ ws2 @ ascii ''``'')"
  shows "fenced_block (ascii ''```'' @ tag @ ws1 @ inner @ ws2 @ ascii ''```'' @ post) = Some inner"
proof -
  let ?k2 = "re_group (re_lazy_star (\<lambda>c. True))
           (\<lambda>g. re_star isspace (re_lit (ascii ''```'') (\<lambda>rest. Some g)))"
  let ?R = "ws1 @ inner @ ws2 @ ascii ''```'' @ post"
  have k1: "re_star isspace ?k2 ?R = Some inner"
  proof (cases "inner = []")
    case True
    have "\<not> sublist (ascii ''```'') ([] @ [] @ ascii ''``'')"
      using sublist_length_le [of "ascii ''```''" "ascii ''``''"] by (auto simp: fence_codes)
    then have "?k2 ([] @ [] @ ascii ''```'' @ post) = Some []"
      by (intro interior_group) auto
    then have "re_star isspace ?k2 ((ws1 @ ws2) @ (ascii ''```'' @ post)) = Some []"
      using ws1 ws2 not_isspace_backtick
      by (intro re_star_takes_all) (auto simp: list_all_iff fence_codes)
    then show ?thesis using True by simp
  next
    case False
    have "?k2 (inner @ ws2 @ ascii ''```'' @ post) = Some inner"
      using ws2 inner free by (intro interior_group) (auto simp: list_all_iff)
    then show ?thesis
      using ws1 inner False by (intro re_star_takes_all) (auto simp: list_all_iff)
  qed
  have opt: "re_opt (re_lit (ascii ''json'')) (re_star isspace ?k2) (tag @ ?R) = Some inner"
  proof (cases "tag = []")
    case True
    have "\<not> prefix (ascii ''json'') ?R"
    proof (cases ws1)
      case Nil
      then show ?thesis using json_not_prefix [OF _ ws2] tag True by (auto simp: fence_codes)
    next
      case (Cons w ws)
      then have "isspace w" using ws1 by simp
      then have "w \<noteq> 106" by (auto simp: isspace_def)
      then show ?thesis using Cons by (simp add: fence_codes)
    qed
    then show ?thesis using True k1 by (simp add: re_opt_def re_lit_no_prefix)
  next
    case False
    then have "tag = ascii ''json''" using tag by auto
    then show ?thesis using k1 by (simp add: re_opt_def re_lit_append)
  qed
  show ?thesis
    unfolding fenced_block_def using opt by (simp only: re_lit_append)
qed

lemma fenced_block_interior:
  assumes pre: "\<not> sublist (ascii ''```'') (pre @ ascii ''``'')"
    and tag: "tag = ascii ''json'' \<or> (tag = [] \<and> \<not> prefix (ascii ''json'') inner)"
    and ws1: "list_all isspace ws1" and ws2: "list_all isspace ws2"
    and inner: "inner = [] \<or> (\<not> isspace (hd inner) \<and> \<not> isspace (last inner))"
    and free: "\<not> sublist (ascii ''```'') (inner @ ws2 @ ascii ''``'')"
  shows "re_search fenced_block (pre @ ascii ''```'' @ tag @ ws1 @ inner @ ws2 @ ascii ''```'' @ post) =
           Some inner"
proof -
  let ?X = "ascii ''```'' @ tag @ ws1 @ inner @ ws2 @ ascii ''```'' @ post"
  have "re_search fenced_block (pre @ ?X) = re_search fenced_block ?X"
  proof (rule re_search_skip)
    fix n assume n: "n < length pre"
    have "\<not> prefix (ascii ''```'') (drop n pre @ ?X)"
    proof
      assume "prefix (ascii ''```'') (drop n pre @ ?X)"
      then have "prefix (ascii ''```'') (drop n pre @ ascii ''``'')"
        using n by (intro fence_needs_two_more) auto
      then obtain ss where "drop n pre @ ascii ''``'' = ascii ''```'' @ ss"
        by (auto simp: prefix_def)
      then have "pre @ ascii ''``'' = take n pre @ ascii ''```'' @ ss"
        by (metis append.assoc append_take_drop_id)
      then have "sublist (ascii ''```'') (pre @ ascii ''``'')"
        unfolding sublist_def by blast
      then show False using pre by simp
    qed
    then show "fenced_block (drop n pre @ ?X) = None"
      unfolding fenced_block_def by (rule re_lit_no_prefix)
  qed
  moreover have "re_search fenced_block ?X = Some inner"
    using fenced_block_at_fence [OF tag ws1 ws2 inner free] by (rule re_search_found)
  ultimately show ?thesis by simp
qed

lemma fenced_block_needs_backtick: "96 \<notin> set r \<Longrightarrow> re_search fenced_block r = None"
proof (induction r)
  case Nil
  then show ?case by (simp add: fenced_block_def re_lit_def fence_codes)
next
  case (Cons c cs)
  then have "fenced_block (c # cs) = None"
    by (simp add: fenced_block_def re_lit_def fence_codes)
  then show ?case using Cons by simp
qed

text \<open>
  Claim C7 as stated fails: it is not for every text that the first strategy whose text
  decodes gives the result. Each attempt catches \<^verbatim>\<open>json.JSONDecodeError\<close> only, so another
  exception of \<^verbatim>\<open>json.loads\<close> leaves \<^verbatim>\<open>_parse_json_response\<close> at once. The text below is
  5000 digits \<^verbatim>\<open>9\<close> followed by the object of the scenario: on the whole text
  \<^verbatim>\<open>json.loads\<close> raises the plain \<^verbatim>\<open>ValueError\<close> of an integer of more than 4300 digits,
  there is no fenced block, the span from the first \<^verbatim>\<open>{\<close> to the last \<^verbatim>\<open>}\<close> is the object and
  it decodes, and yet the function raises that \<^verbatim>\<open>ValueError\<close> and the object is never
  tried.
\<close>

theorem parse_json_response_stops_at_other_error:
  "(\<lambda>s. if s = replicate 5000 57 @ ascii ''{'' @ [34] @ ascii ''question'' @ [34] @ ascii '':'' @
                  [34] @ ascii ''Q'' @ [34] @ ascii ''}''
         then Raises (ValueError (ascii ''Exceeds the limit (4300 digits) for integer string conversion: value has 5000 digits; use sys.set_int_max_str_digits() to increase the limit''))
         else if s = ascii ''{'' @ [34] @ ascii ''question'' @ [34] @ ascii '':'' @ [34] @
                     ascii ''Q'' @ [34] @ ascii ''}''
         then Returns (VDict [(ascii ''question'', VStr (ascii ''Q''))])
         else JSONDecodeError)
     (ascii ''{'' @ [34] @ ascii ''question'' @ [34] @ ascii '':'' @ [34] @ ascii ''Q'' @ [34] @
      ascii ''}'') = Returns (VDict [(ascii ''question'', VStr (ascii ''Q''))]) \<and>
   re_search fenced_block
     (replicate 5000 57 @ ascii ''{'' @ [34] @ ascii ''question'' @ [34] @ ascii '':'' @ [34] @
      ascii ''Q'' @ [34] @ ascii ''}'') = None \<and>
   re_search brace_span
     (replicate 5000 57 @ ascii ''{'' @ [34] @ ascii ''question'' @ [34] @ ascii '':'' @ [34] @
      ascii ''Q'' @ [34] @ ascii ''}'') =
     Some (ascii ''{'' @ [34] @ ascii ''question'' @ [34] @ ascii '':'' @ [34] @ ascii ''Q'' @
           [34] @ ascii ''}'') \<and>
   parse_json_response
     (\<lambda>s. if s = replicate 5000 57 @ ascii ''{'' @ [34] @ ascii ''question'' @ [34] @ ascii '':'' @
                  [34] @ ascii ''Q'' @ [34] @ ascii ''}''
         then Raises (ValueError (ascii ''Exceeds the limit (4300 digits) for integer string conversion: value has 5000 digits; use sys.set_int_max_str_digits() to increase the limit''))
         else if s = ascii ''{'' @ [34] @ ascii ''question'' @ [34] @ ascii '':'' @ [34] @
                     ascii ''Q'' @ [34] @ ascii ''}''
         then Returns (VDict [(ascii ''question'', VStr (ascii ''Q''))])
         else JSONDecodeError)
     (replicate 5000 57 @ ascii ''{'' @ [34] @ ascii ''question'' @ [34] @ ascii '':'' @ [34] @
      ascii ''Q'' @ [34] @ ascii ''}'') =
     Inl (ValueError (ascii ''Exceeds the limit (4300 digits) for integer string conversion: value has 5000 digits; use sys.set_int_max_str_digits() to increase the limit''))"
proof -
  let ?object = "ascii ''{'' @ [34] @ ascii ''question'' @ [34] @ ascii '':'' @ [34] @ ascii ''Q'' @
      [34] @ ascii ''}''"
  let ?raw = "replicate 5000 57 @ ?object"
  have decodes: "?object \<noteq> ?raw"
    by simp
  have fenced: "re_search fenced_block ?raw = None"
    by (rule fenced_block_needs_backtick) (simp add: ascii_def)
  have "re_search brace_span
      (replicate 5000 57 @ [123] @ ([34] @ ascii ''question'' @ [34] @ ascii '':'' @ [34] @
         ascii ''Q'' @ [34]) @ [125] @ []) =
      Some ([123] @ ([34] @ ascii ''question'' @ [34] @ ascii '':'' @ [34] @ ascii ''Q'' @ [34]) @ [125])"
    by (rule brace_span_first_to_last) simp_all
  then have braces: "re_search brace_span ?raw = Some ?object"
    by (simp add: ascii_def)
  show ?thesis
    using decodes fenced braces
    by (simp add: parse_json_response_def try_loads_def)
qed

text \<open>
  Claim C7, amended. \<^verbatim>\<open>_parse_json_response\<close> tries three strategies in order: the whole
  text; the interior of the first fenced block, which is the text between the fences
  without an optional \<^verbatim>\<open>json\<close> tag and without the white space around it; and the span from
  the first \<^verbatim>\<open>{\<close> to the last \<^verbatim>\<open>}\<close>, when there is one. A strategy is passed over when its
  text is not there or \<^verbatim>\<open>json.loads\<close> raises \<^verbatim>\<open>JSONDecodeError\<close> on it; the first strategy
  that is not passed over decides: what \<^verbatim>\<open>json.loads\<close> returns is returned, whatever the
  later ones would give, and an exception of another class that it raises is raised, the
  later ones not tried. When all three are passed over it raises the \<^verbatim>\<open>ValueError\<close>. On the
  response of the scenario the fenced block is found, and its interior is what is decoded
  when the whole text raises \<^verbatim>\<open>JSONDecodeError\<close>.
\<close>

theorem parse_json_response_first_success:
  fixes loads :: "pystr \<Rightarrow> loads_result"
  shows
   "(loads raw = Returns v \<longrightarrow> parse_json_response loads raw = Inr v) \<and>
    (loads raw = JSONDecodeError \<and> re_search fenced_block raw = Some g \<and> loads g = Returns v \<longrightarrow>
       parse_json_response loads raw = Inr v) \<and>
    (loads raw = JSONDecodeError \<and>
     (case re_search fenced_block raw of Some g \<Rightarrow> loads g | None \<Rightarrow> JSONDecodeError) = JSONDecodeError \<and>
     re_search brace_span raw = Some b \<and> loads b = Returns v \<longrightarrow>
       parse_json_response loads raw = Inr v) \<and>
    (loads raw = JSONDecodeError \<and>
     (case re_search fenced_block raw of Some g \<Rightarrow> loads g | None \<Rightarrow> JSONDecodeError) = JSONDecodeError \<and>
     (case re_search brace_span raw of Some b \<Rightarrow> loads b | None \<Rightarrow> JSONDecodeError) = JSONDecodeError \<longrightarrow>
       parse_json_response loads raw =
         Inl (ValueError (ascii ''Could not parse JSON from response''))) \<and>
    (loads raw = Raises e \<longrightarrow> parse_json_response loads raw = Inl e) \<and>
    (loads raw = JSONDecodeError \<and> re_search fenced_block raw = Some g \<and> loads g = Raises e \<longrightarrow>
       parse_json_response loads raw = Inl e) \<and>
    (loads raw = JSONDecodeError \<and>
     (case re_search fenced_block raw of Some g \<Rightarrow> loads g | None \<Rightarrow> JSONDecodeError) = JSONDecodeError \<and>
     re_search brace_span raw = Some b \<and> loads b = Raises e \<longrightarrow>
       parse_json_response loads raw = Inl e) \<and>
    (\<not> sublist (ascii ''```'') (pre @ ascii ''``'') \<and>
     (tag = ascii ''json'' \<or> (tag = [] \<and> \<not> prefix (ascii ''json'') inner)) \<and>
     list_all isspace leading \<and> list_all isspace trailing \<and>
     (inner = [] \<or> (\<not> isspace (hd inner) \<and> \<not> isspace (last inner))) \<and>
     \<not> sublist (ascii ''```'') (inner @ trailing @ ascii ''``'') \<longrightarrow>
       re_search fenced_block
         (pre @ ascii ''```'' @ tag @ leading @ inner @ trailing @ ascii ''```'' @ post) = Some inner) \<and>
    (123 \<notin> set before \<and> 125 \<notin> set after \<longrightarrow>
       re_search brace_span (before @ ascii ''{'' @ mid @ ascii ''}'' @ after) =
         Some (ascii ''{'' @ mid @ ascii ''}'')) \<and>
    ((\<forall>p q. raw = p @ ascii ''{'' @ q \<longrightarrow> 125 \<notin> set q) \<longrightarrow> re_search brace_span raw = None) \<and>
    re_search fenced_block
      (ascii ''Here you go:'' @ [10] @ ascii ''```json'' @ [10] @ ascii ''{'' @ [34] @
       ascii ''question'' @ [34] @ ascii '':'' @ [34] @ ascii ''Q'' @ [34] @ ascii ''}'' @ [10] @
       ascii ''```'') =
      Some (ascii ''{'' @ [34] @ ascii ''question'' @ [34] @ ascii '':'' @ [34] @ ascii ''Q'' @
            [34] @ ascii ''}'') \<and>
    (loads (ascii ''Here you go:'' @ [10] @ ascii ''```json'' @ [10] @ ascii ''{'' @ [34] @
       ascii ''question'' @ [34] @ ascii '':'' @ [34] @ ascii ''Q'' @ [34] @ ascii ''}'' @ [10] @
       ascii ''```'') = JSONDecodeError \<and>
     loads (ascii ''{'' @ [34] @ ascii ''question'' @ [34] @ ascii '':'' @ [34] @ ascii ''Q'' @
            [34] @ ascii ''}'') = Returns v \<longrightarrow>
       parse_json_response loads
         (ascii ''Here you go:'' @ [10] @ ascii ''```json'' @ [10] @ ascii ''{'' @ [34] @
          ascii ''question'' @ [34] @ ascii '':'' @ [34] @ ascii ''Q'' @ [34] @ ascii ''}'' @ [10] @
          ascii ''```'') = Inr v)"
proof -
  let ?example = "ascii ''Here you go:'' @ [10] @ ascii ''```json'' @ [10] @ ascii ''{'' @ [34] @
       ascii ''question'' @ [34] @ ascii '':'' @ [34] @ ascii ''Q'' @ [34] @ ascii ''}'' @ [10] @
       ascii ''```''"
  let ?object = "ascii ''{'' @ [34] @ ascii ''question'' @ [34] @ ascii '':'' @ [34] @ ascii ''Q'' @
            [34] @ ascii ''}''"
  have first: "loads raw = Returns v \<longrightarrow> parse_json_response loads raw = Inr v"
    by (auto simp: parse_json_response_def try_loads_def split: option.splits loads_result.splits)
  have second: "loads raw = JSONDecodeError \<and> re_search fenced_block raw = Some g \<and> loads g = Returns v \<longrightarrow>
       parse_json_response loads raw = Inr v"
    by (auto simp: parse_json_response_def try_loads_def split: option.splits loads_result.splits)
  have third: "loads raw = JSONDecodeError \<and>
     (case re_search fenced_block raw of Some g \<Rightarrow> loads g | None \<Rightarrow> JSONDecodeError) = JSONDecodeError \<and>
     re_search brace_span raw = Some b \<and> loads b = Returns v \<longrightarrow>
       parse_json_response loads raw = Inr v"
    by (auto simp: parse_json_response_def try_loads_def split: option.splits loads_result.splits)
  have none: "loads raw = JSONDecodeError \<and>
     (case re_search fenced_block raw of Some g \<Rightarrow> loads g | None \<Rightarrow> JSONDecodeError) = JSONDecodeError \<and>
     (case re_search brace_span raw of Some b \<Rightarrow> loads b | None \<Rightarrow> JSONDecodeError) = JSONDecodeError \<longrightarrow>
       parse_json_response loads raw =
         Inl (ValueError (ascii ''Could not parse JSON from response''))"
    by (auto simp: parse_json_response_def try_loads_def split: option.splits loads_result.splits)
  have raised_first: "loads raw = Raises e \<longrightarrow> parse_json_response loads raw = Inl e"
    by (auto simp: parse_json_response_def try_loads_def split: option.splits loads_result.splits)
  have raised_second: "loads raw = JSONDecodeError \<and> re_search fenced_block raw = Some g \<and>
      loads g = Raises e \<longrightarrow> parse_json_response loads raw = Inl e"
    by (auto simp: parse_json_response_def try_loads_def split: option.splits loads_result.splits)
  have raised_third: "loads raw = JSONDecodeError \<and>
     (case re_search fenced_block raw of Some g \<Rightarrow> loads g | None \<Rightarrow> JSONDecodeError) = JSONDecodeError \<and>
     re_search brace_span raw = Some b \<and> loads b = Raises e \<longrightarrow>
       parse_json_response loads raw = Inl e"
    by (auto simp: parse_json_response_def try_loads_def split: option.splits loads_result.splits)
  have fenced: "\<not> sublist (ascii ''```'') (pre @ ascii ''``'') \<and>
     (tag = ascii ''json'' \<or> (tag = [] \<and> \<not> prefix (ascii ''json'') inner)) \<and>
     list_all isspace leading \<and> list_all isspace trailing \<and>
     (inner = [] \<or> (\<not> isspace (hd inner) \<and> \<not> isspace (last inner))) \<and>
     \<not> sublist (ascii ''```'') (inner @ trailing @ ascii ''``'') \<longrightarrow>
       re_search fenced_block
         (pre @ ascii ''```'' @ tag @ leading @ inner @ trailing @ ascii ''```'' @ post) = Some inner"
    using fenced_block_interior [of pre tag inner leading trailing post] by blast
  have braces: "123 \<notin> set before \<and> 125 \<notin> set after \<longrightarrow>
       re_search brace_span (before @ ascii ''{'' @ mid @ ascii ''}'' @ after) =
         Some (ascii ''{'' @ mid @ ascii ''}'')"
    using brace_span_first_to_last [of before after mid] by (simp add: ascii_def)
  have no_braces: "(\<forall>p q. raw = p @ ascii ''{'' @ q \<longrightarrow> 125 \<notin> set q) \<longrightarrow>
      re_search brace_span raw = None"
    using brace_span_none [of raw] by (simp add: ascii_def)
  have found: "re_search fenced_block ?example = Some ?object"
    by (simp add: fenced_block_def ascii_def re_lit_def re_opt_def re_group_def isspace_def)
  have example: "loads ?example = JSONDecodeError \<and> loads ?object = Returns v \<longrightarrow>
      parse_json_response loads ?example = Inr v"
    using found by (auto simp: parse_json_response_def try_loads_def split: option.splits loads_result.splits)
  from first second third none raised_first raised_second raised_third fenced braces
    no_braces found example show ?thesis
    by (intro conjI)
qed

theorem parse_json_response_first_success_witness:
  "parse_json_response
     (\<lambda>s. if s = ascii ''[{}]'' then Returns (VList [VDict []])
          else if s = ascii ''{}'' then Returns (VDict []) else JSONDecodeError)
     (ascii ''[{}]'') = Inr (VList [VDict []]) \<and>
   re_search brace_span (ascii ''[{}]'') = Some (ascii ''{}'') \<and>
   parse_json_response
     (\<lambda>s. if s = ascii ''{'' @ [34] @ ascii ''question'' @ [34] @ ascii '':'' @ [34] @ ascii ''Q'' @
                  [34] @ ascii ''}''
          then Returns (VDict [(ascii ''question'', VStr (ascii ''Q''))]) else JSONDecodeError)
     (ascii ''Here you go:'' @ [10] @ ascii ''```json'' @ [10] @ ascii ''{'' @ [34] @
      ascii ''question'' @ [34] @ ascii '':'' @ [34] @ ascii ''Q'' @ [34] @ ascii ''}'' @ [10] @
      ascii ''```'') = Inr (VDict [(ascii ''question'', VStr (ascii ''Q''))]) \<and>
   parse_json_response
     (\<lambda>s. if s = ascii ''[{}]'' then Returns (VList [VDict []])
          else if s = ascii ''{}'' then Returns (VDict []) else JSONDecodeError)
     (ascii ''Sure: {} ok'') = Inr (VDict []) \<and>
   parse_json_response
     (\<lambda>s. if s = ascii ''[{}]'' then Returns (VList [VDict []])
          else if s = ascii ''{}'' then Returns (VDict []) else JSONDecodeError)
     (ascii ''no object here'') = Inl (ValueError (ascii ''Could not parse JSON from response'')) \<and>
   re_search fenced_block (ascii ''x ```json'' @ [10] @ ascii ''{} ``` bye'') = Some (ascii ''{}'') \<and>
   re_search brace_span (ascii ''} {'') = None \<and>
   parse_json_response
     (\<lambda>s. if s = replicate 5000 57 then Raises (ValueError (ascii ''Exceeds the limit''))
          else if s = ascii ''{}'' then Returns (VDict []) else JSONDecodeError)
     (replicate 5000 57) = Inl (ValueError (ascii ''Exceeds the limit''))"
proof -
  let ?stub = "\<lambda>s. if s = ascii ''[{}]'' then Returns (VList [VDict []])
          else if s = ascii ''{}'' then Returns (VDict []) else JSONDecodeError"
  let ?object = "ascii ''{'' @ [34] @ ascii ''question'' @ [34] @ ascii '':'' @ [34] @ ascii ''Q'' @
                  [34] @ ascii ''}''"
  let ?decode = "\<lambda>s. if s = ?object
          then Returns (VDict [(ascii ''question'', VStr (ascii ''Q''))]) else JSONDecodeError"
  have w1: "parse_json_response ?stub (ascii ''[{}]'') = Inr (VList [VDict []])"
    using parse_json_response_first_success
      [where loads = ?stub and raw = "ascii ''[{}]''" and v = "VList [VDict []]"]
    by simp
  have w1b: "re_search brace_span (ascii ''[{}]'') = Some (ascii ''{}'')"
    using parse_json_response_first_success
      [where before = "ascii ''[''" and mid = "[]" and after = "ascii '']''"]
    by (simp add: ascii_def)
  have w2: "parse_json_response ?decode
     (ascii ''Here you go:'' @ [10] @ ascii ''```json'' @ [10] @ ascii ''{'' @ [34] @
      ascii ''question'' @ [34] @ ascii '':'' @ [34] @ ascii ''Q'' @ [34] @ ascii ''}'' @ [10] @
      ascii ''```'') = Inr (VDict [(ascii ''question'', VStr (ascii ''Q''))])"
    using parse_json_response_first_success
      [where loads = ?decode and v = "VDict [(ascii ''question'', VStr (ascii ''Q''))]"]
    by (simp add: ascii_def)
  have f3: "re_search fenced_block (ascii ''Sure: {} ok'') = None"
    by (simp add: fenced_block_def ascii_def re_lit_def)
  have b3: "re_search brace_span (ascii ''Sure: {} ok'') = Some (ascii ''{}'')"
    using parse_json_response_first_success
      [where before = "ascii ''Sure: ''" and mid = "[]" and after = "ascii '' ok''"]
    by (simp add: ascii_def)
  have w3: "parse_json_response ?stub (ascii ''Sure: {} ok'') = Inr (VDict [])"
    using parse_json_response_first_success
      [where loads = ?stub and raw = "ascii ''Sure: {} ok''" and v = "VDict []"
         and b = "ascii ''{}''"] f3 b3
    by (simp add: ascii_def)
  have f4: "re_search fenced_block (ascii ''no object here'') = None"
    by (simp add: fenced_block_def ascii_def re_lit_def)
  have b4: "re_search brace_span (ascii ''no object here'') = None"
    by (simp add: brace_span_def ascii_def re_lit_def re_group_def)
  have w4: "parse_json_response ?stub (ascii ''no object here'') =
      Inl (ValueError (ascii ''Could not parse JSON from response''))"
    using parse_json_response_first_success
      [where loads = ?stub and raw = "ascii ''no object here''"] f4 b4
    by (simp add: ascii_def)
  have w5: "re_search fenced_block (ascii ''x ```json'' @ [10] @ ascii ''{} ``` bye'') = Some (ascii ''{}'')"
    using parse_json_response_first_success
      [where pre = "ascii ''x ''" and tag = "ascii ''json''" and leading = "[10]"
         and inner = "ascii ''{}''" and trailing = "ascii '' ''" and post = "ascii '' bye''"]
    by (simp add: ascii_def isspace_def sublist_Cons_right)
  have w6: "re_search brace_span (ascii ''} {'') = None"
    using parse_json_response_first_success [where raw = "ascii ''} {''"]
    by (auto simp: ascii_def append_eq_Cons_conv Cons_eq_append_conv)
  have w7: "parse_json_response
     (\<lambda>s. if s = replicate 5000 57 then Raises (ValueError (ascii ''Exceeds the limit''))
          else if s = ascii ''{}'' then Returns (VDict []) else JSONDecodeError)
     (replicate 5000 57) = Inl (ValueError (ascii ''Exceeds the limit''))"
    using parse_json_response_first_success
      [where loads = "\<lambda>s. if s = replicate 5000 57 then Raises (ValueError (ascii ''Exceeds the limit''))
          else if s = ascii ''{}'' then Returns (VDict []) else JSONDecodeError"
         and raw = "replicate 5000 57" and e = "ValueError (ascii ''Exceeds the limit'')"]
    by simp
  from w1 w1b w2 w3 w4 w5 w6 w7 show ?thesis
    by (intro conjI)
qed

section \<open>Properties of the quick revision service\<close>

lemma ascii_eq_iff: "(ascii a = ascii b) = (a = b)"
  unfolding ascii_def by (simp add: inj_map_eq_map inj_on_def)

text \<open>
  Claim C9 as stated fails: a response with key concepts and ten items, each with three
  options instead of four, is accepted and returned as it is.
\<close>

theorem revise_accepts_three_options:
  "revise_parsed
     (VDict [(ascii ''key_concepts'', VList [VStr (ascii ''Ohm's law'')]),
             (ascii ''mcqs'', VList (replicate 10
                (VDict [(ascii ''question'', VStr (ascii ''Q'')),
                        (ascii ''options'', VList [VStr (ascii ''A) 1''), VStr (ascii ''B) 2''), VStr (ascii ''C) 3'')]),
                        (ascii ''correctAnswer'', VStr (ascii ''A''))])))]) =
   Inr (VDict [(ascii ''analysis'',
     VDict [(ascii ''key_concepts'', VList [VStr (ascii ''Ohm's law'')]),
            (ascii ''mcqs'', VList (replicate 10
                (VDict [(ascii ''question'', VStr (ascii ''Q'')),
                        (ascii ''options'', VList [VStr (ascii ''A) 1''), VStr (ascii ''B) 2''), VStr (ascii ''C) 3'')]),
                        (ascii ''correctAnswer'', VStr (ascii ''A''))])))])])"
  by (simp add: revise_parsed_def dict_get_def ascii_eq_iff)

text \<open>
  Claim C9, amended. For a decoded object with a non-empty \<^verbatim>\<open>key_concepts\<close> whose \<^verbatim>\<open>mcqs\<close>
  is a list (the empty list when the key is absent): fewer than ten items fail the
  operation with status 500 and the detail \<^verbatim>\<open>AI returned only N MCQs\<close>; ten or more
  succeed with the first ten items, unchanged and in order, under \<^verbatim>\<open>mcqs\<close>. The items
  themselves, and so the number of their options, are not examined.
\<close>

theorem revise_counts_mcqs:
  assumes "map_of d (ascii ''key_concepts'') = Some concepts" and "truthy concepts"
    and "dict_get d (ascii ''mcqs'') (VList []) = VList mcqs"
  shows "(length mcqs < 10 \<longrightarrow>
            revise_parsed (VDict d) =
              Inl (HTTPException 500
                     (ascii ''AI returned only '' @ str_nat (length mcqs) @ ascii '' MCQs''))) \<and>
         (length mcqs \<ge> 10 \<longrightarrow>
            revise_parsed (VDict d) =
              Inr (VDict [(ascii ''analysis'', VDict (dict_set d (ascii ''mcqs'') (VList (take 10 mcqs))))]) \<and>
            length (take 10 mcqs) = 10)"
proof -
  have "ascii ''key_concepts'' \<in> fst ` set d"
    using assms(1) by (metis map_of_eq_None_iff option.distinct(1))
  then show ?thesis
    using assms by (simp add: revise_parsed_def Let_def del: str_nat.simps)
qed

theorem revise_counts_mcqs_witness:
  "revise_parsed
     (VDict [(ascii ''key_concepts'', VList [VStr (ascii ''Ohm's law'')]),
             (ascii ''mcqs'', VList [VInt 1, VInt 2, VInt 3])]) =
     Inl (HTTPException 500 (ascii ''AI returned only 3 MCQs'')) \<and>
   revise_parsed
     (VDict [(ascii ''key_concepts'', VList [VStr (ascii ''Ohm's law'')]),
             (ascii ''mcqs'', VList [VInt 1, VInt 2, VInt 3, VInt 4, VInt 5, VInt 6, VInt 7,
                                    VInt 8, VInt 9, VInt 10, VInt 11, VInt 12])]) =
     Inr (VDict [(ascii ''analysis'',
        VDict [(ascii ''key_concepts'', VList [VStr (ascii ''Ohm's law'')]),
               (ascii ''mcqs'', VList [VInt 1, VInt 2, VInt 3, VInt 4, VInt 5, VInt 6, VInt 7,
                                      VInt 8, VInt 9, VInt 10])])])"
proof -
  have few: "revise_parsed
     (VDict [(ascii ''key_concepts'', VList [VStr (ascii ''Ohm's law'')]),
             (ascii ''mcqs'', VList [VInt 1, VInt 2, VInt 3])]) =
     Inl (HTTPException 500 (ascii ''AI returned only 3 MCQs''))"
    using revise_counts_mcqs
      [where d = "[(ascii ''key_concepts'', VList [VStr (ascii ''Ohm's law'')]),
                   (ascii ''mcqs'', VList [VInt 1, VInt 2, VInt 3])]"
         and concepts = "VList [VStr (ascii ''Ohm's law'')]"
         and mcqs = "[VInt 1, VInt 2, VInt 3]"]
    by (simp add: dict_get_def ascii_eq_iff) (simp add: ascii_def)
  have many: "revise_parsed
     (VDict [(ascii ''key_concepts'', VList [VStr (ascii ''Ohm's law'')]),
             (ascii ''mcqs'', VList [VInt 1, VInt 2, VInt 3, VInt 4, VInt 5, VInt 6, VInt 7,
                                    VInt 8, VInt 9, VInt 10, VInt 11, VInt 12])]) =
     Inr (VDict [(ascii ''analysis'',
        VDict [(ascii ''key_concepts'', VList [VStr (ascii ''Ohm's law'')]),
               (ascii ''mcqs'', VList [VInt 1, VInt 2, VInt 3, VInt 4, VInt 5, VInt 6, VInt 7,
                                      VInt 8, VInt 9, VInt 10])])])"
    using revise_counts_mcqs
      [where d = "[(ascii ''key_concepts'', VList [VStr (ascii ''Ohm's law'')]),
                   (ascii ''mcqs'', VList [VInt 1, VInt 2, VInt 3, VInt 4, VInt 5, VInt 6, VInt 7,
                                          VInt 8, VInt 9, VInt 10, VInt 11, VInt 12])]"
         and concepts = "VList [VStr (ascii ''Ohm's law'')]"
         and mcqs = "[VInt 1, VInt 2, VInt 3, VInt 4, VInt 5, VInt 6, VInt 7,
                      VInt 8, VInt 9, VInt 10, VInt 11, VInt 12]"]
    by (simp add: dict_get_def ascii_eq_iff)
  from few many show ?thesis ..
qed

section \<open>Properties of the floating point arithmetic\<close>

text \<open>
  Rounding to the nearest integer is off by at most a half, so \<open>binary64\<close> is off by at
  most half of the last bit; and a number whose exponent and nearest multiple of the last
  bit are known is rounded to that multiple.
\<close>

lemma round_half_even_near: "\<bar>of_int (round_half_even y) - y\<bar> \<le> 1 / 2"
  unfolding round_half_even_def Let_def by (auto simp: abs_if) linarith+

lemma round_half_even_eval:
  assumes "of_int n - 1 / 2 < y" and "y < of_int n + 1 / 2"
  shows "round_half_even y = n"
proof -
  have "\<bar>of_int (round_half_even y) - y\<bar> \<le> 1 / 2" by (rule round_half_even_near)
  then have "\<bar>real_of_int (round_half_even y) - of_int n\<bar> < 1" using assms by linarith
  then have "\<bar>real_of_int (round_half_even y - n)\<bar> < 1" by simp
  then have "\<bar>round_half_even y - n\<bar> < 1" by linarith
  then show ?thesis by simp
qed

lemma round_half_even_nonneg: "0 \<le> y \<Longrightarrow> 0 \<le> round_half_even y"
  unfolding round_half_even_def Let_def by auto

lemma floor_log2_le:
  assumes "x \<noteq> 0" and "\<bar>x\<bar> < 2 powi (k + 1)"
  shows "\<lfloor>log 2 \<bar>x\<bar>\<rfloor> \<le> k"
proof -
  have pos: "0 < \<bar>x\<bar>" using assms(1) by simp
  have "(2::real) powr real_of_int (k + 1) = 2 powi (k + 1)"
    by (rule powr_real_of_int') simp_all
  then have "\<bar>x\<bar> < 2 powr real_of_int (k + 1)" using assms(2) by (simp only:)
  then have "log 2 \<bar>x\<bar> < real_of_int (k + 1)"
    using pos by (simp add: log_less_iff)
  then show ?thesis by linarith
qed

lemma floor_log2_eq:
  assumes "2 powi k \<le> \<bar>x\<bar>" and "\<bar>x\<bar> < 2 powi (k + 1)"
  shows "\<lfloor>log 2 \<bar>x\<bar>\<rfloor> = k"
proof -
  have "(0::real) < 2 powi k" by simp
  then have pos: "0 < \<bar>x\<bar>" using assms(1) by linarith
  have "(2::real) powr real_of_int k = 2 powi k"
    and "(2::real) powr real_of_int (k + 1) = 2 powi (k + 1)"
    by (rule powr_real_of_int'; simp)+
  then have "(2::real) powr real_of_int k \<le> \<bar>x\<bar>" "\<bar>x\<bar> < 2 powr real_of_int (k + 1)"
    using assms by (simp_all only:)
  then show ?thesis using pos floor_log_eq_powr_iff [of "\<bar>x\<bar>" 2 k] by simp
qed

lemma binary64_error:
  assumes "\<bar>x\<bar> < 2 powi (k + 1)" and "- 1022 \<le> k"
  shows "\<bar>binary64 x - x\<bar> \<le> 2 powi (k - 53)"
proof (cases "x = 0")
  case True
  then show ?thesis by (simp add: binary64_def)
next
  case False
  define e where "e = max (\<lfloor>log 2 \<bar>x\<bar>\<rfloor> - 52) (- 1074)"
  have e: "e \<le> k - 52"
    using floor_log2_le [OF False assms(1)] assms(2) by (simp add: e_def)
  have p: "(0::real) < 2 powi e" by simp
  have "binary64 x - x = (of_int (round_half_even (x / 2 powi e)) - x / 2 powi e) * 2 powi e"
    using False by (simp add: binary64_def e_def [symmetric] Let_def algebra_simps)
  then have "\<bar>binary64 x - x\<bar> = \<bar>of_int (round_half_even (x / 2 powi e)) - x / 2 powi e\<bar> * 2 powi e"
    by (simp add: abs_mult)
  also have "\<dots> \<le> 1 / 2 * 2 powi e"
    using round_half_even_near [of "x / 2 powi e"] p by (intro mult_right_mono) simp_all
  also have "\<dots> = 2 powi (e - 1)"
    by (simp add: power_int_diff)
  also have "\<dots> \<le> 2 powi (k - 53)"
    using e by (intro power_int_increasing) simp_all
  finally show ?thesis .
qed

lemma binary64_nonneg: "0 \<le> x \<Longrightarrow> 0 \<le> binary64 x"
  by (simp add: binary64_def Let_def round_half_even_nonneg)

lemma binary64_eval:
  assumes "2 powi k \<le> \<bar>x\<bar>" and "\<bar>x\<bar> < 2 powi (k + 1)" and "- 1022 \<le> k"
    and "of_int n - 1 / 2 < x / 2 powi (k - 52)" and "x / 2 powi (k - 52) < of_int n + 1 / 2"
  shows "binary64 x = of_int n * 2 powi (k - 52)"
proof -
  have "(0::real) < 2 powi k" by simp
  then have "0 < \<bar>x\<bar>" using assms(1) by linarith
  then have nz: "x \<noteq> 0" by simp
  have "max (\<lfloor>log 2 \<bar>x\<bar>\<rfloor> - 52) (- 1074) = k - 52"
    using floor_log2_eq [OF assms(1,2)] assms(3) by simp
  then show ?thesis
    using nz round_half_even_eval [OF assms(4,5)] by (simp add: binary64_def Let_def)
qed

lemma rounded_finite:
  assumes "0 \<le> binary64 x" and "binary64 x < 2 ^ 1024"
  shows "rounded False x = Finite (binary64 x)"
  using assms by (simp add: rounded_def Let_def)

lemma int_truediv_zero: "int_truediv a b = Inl ZeroDivisionError \<longleftrightarrow> b = 0"
  by (simp add: int_truediv_def split: pyfloat.splits)

lemma small_below_limit: "x \<le> 200 \<Longrightarrow> x < (2::real) ^ 1024"
proof -
  assume "x \<le> 200"
  moreover have "(200::real) < 2 ^ 8" by simp
  moreover have "(2::real) ^ 8 \<le> 2 ^ 1024" by (rule power_increasing) simp_all
  ultimately show ?thesis by linarith
qed

text \<open>
  The quotient of a part by the whole, its product with 100 and the mean of a list of
  levels are far from the largest \<^verbatim>\<open>float\<close>: they are rounded, and nothing else.
\<close>

lemma ratio_rounded:
  assumes "0 \<le> c" and "c \<le> t" and "t \<noteq> 0"
  shows "int_truediv c t = Inr (Finite (binary64 (of_int c / of_int t)))"
    and "0 \<le> binary64 (of_int c / of_int t)"
    and "\<bar>binary64 (of_int c / of_int t) - of_int c / of_int t\<bar> \<le> 1 / 2 ^ 53"
proof -
  let ?x = "real_of_int c / real_of_int t"
  have t: "0 < t" using assms by linarith
  have x: "0 \<le> ?x" "?x \<le> 1" using assms t by simp_all
  show nonneg: "0 \<le> binary64 ?x" using x(1) by (rule binary64_nonneg)
  have "\<bar>binary64 ?x - ?x\<bar> \<le> 2 powi (0 - 53)"
    using x by (intro binary64_error) simp_all
  then show err: "\<bar>binary64 ?x - ?x\<bar> \<le> 1 / 2 ^ 53"
    by (simp add: power_int_minus field_simps)
  have "1 / 2 ^ 53 \<le> (1::real)" by simp
  then have "binary64 ?x \<le> 200" using err x by linarith
  then have "rounded False ?x = Finite (binary64 ?x)"
    using nonneg by (intro rounded_finite small_below_limit)
  then show "int_truediv c t = Inr (Finite (binary64 ?x))"
    using assms t by (simp add: int_truediv_def)
qed

lemma percent_rounded:
  assumes "0 \<le> q" and "\<bar>q - x\<bar> \<le> 1 / 2 ^ 53" and "0 \<le> x" and "x \<le> 1"
  shows "float_mul (Finite q) (Finite 100) = Finite (binary64 (q * 100))"
    and "\<bar>binary64 (q * 100) - 100 * x\<bar> \<le> 1 / 2 ^ 45"
proof -
  have small: "1 / 2 ^ 53 \<le> (1 / 100 :: real)" by simp
  have q: "q \<le> 1 + 1 / 100" using assms(2,4) small by linarith
  have y: "0 \<le> q * 100" "q * 100 < 2 powi (6 + 1)" using assms(1) q by simp_all
  have "\<bar>binary64 (q * 100) - q * 100\<bar> \<le> 2 powi (6 - 53)"
    using y by (intro binary64_error) simp_all
  then have err: "\<bar>binary64 (q * 100) - q * 100\<bar> \<le> 1 / 2 ^ 47"
    by (simp add: power_int_minus field_simps)
  have "\<bar>q * 100 - 100 * x\<bar> = 100 * \<bar>q - x\<bar>" by (simp add: abs_if)
  then have "\<bar>q * 100 - 100 * x\<bar> \<le> 100 * (1 / 2 ^ 53)" using assms(2) by simp
  moreover have "1 / 2 ^ 47 + 100 * (1 / 2 ^ 53) \<le> (1 / 2 ^ 45 :: real)" by simp
  ultimately show "\<bar>binary64 (q * 100) - 100 * x\<bar> \<le> 1 / 2 ^ 45"
    using err by linarith
  have nonneg: "0 \<le> binary64 (q * 100)" using y(1) by (rule binary64_nonneg)
  have "1 / 2 ^ 47 \<le> (1::real)" by simp
  then have "binary64 (q * 100) \<le> 200" using err q by linarith
  then have "rounded False (q * 100) = Finite (binary64 (q * 100))"
    using nonneg by (intro rounded_finite small_below_limit)
  then show "float_mul (Finite q) (Finite 100) = Finite (binary64 (q * 100))"
    using assms(1) by (simp add: float_mul_def)
qed

lemma sum_list_levels:
  "\<forall>d \<in> set ds. 1 \<le> d \<and> d \<le> (3::int) \<Longrightarrow>
   int (length ds) \<le> sum_list ds \<and> sum_list ds \<le> 3 * int (length ds)"
  by (induction ds) auto

lemma mean_rounded:
  assumes "ds \<noteq> []" and "\<forall>d \<in> set ds. 1 \<le> d \<and> d \<le> (3::int)"
  shows "int_truediv (sum_list ds) (int (length ds)) =
           Inr (Finite (binary64 (of_int (sum_list ds) / real (length ds))))"
    and "\<bar>binary64 (of_int (sum_list ds) / real (length ds)) -
          of_int (sum_list ds) / real (length ds)\<bar> \<le> 1 / 2 ^ 52"
proof -
  let ?x = "real_of_int (sum_list ds) / real (length ds)"
  have len: "0 < length ds" using assms(1) by simp
  have s: "int (length ds) \<le> sum_list ds" "sum_list ds \<le> 3 * int (length ds)"
    using sum_list_levels [OF assms(2)] by simp_all
  have "real_of_int (sum_list ds) \<le> 3 * real (length ds)"
    using s(2) by (metis of_int_le_iff of_int_mult of_int_numeral of_int_of_nat_eq)
  then have hi: "?x \<le> 3" using len by (simp add: field_simps)
  have "0 \<le> real_of_int (sum_list ds)" using s(1) by simp
  then have lo: "0 \<le> ?x" by simp
  have "\<bar>binary64 ?x - ?x\<bar> \<le> 2 powi (1 - 53)"
    using lo hi by (intro binary64_error) simp_all
  then show err: "\<bar>binary64 ?x - ?x\<bar> \<le> 1 / 2 ^ 52"
    by (simp add: power_int_minus field_simps)
  have nonneg: "0 \<le> binary64 ?x" using lo by (rule binary64_nonneg)
  have "1 / 2 ^ 52 \<le> (1::real)" by simp
  then have "binary64 ?x \<le> 200" using err hi by linarith
  then have "rounded False ?x = Finite (binary64 ?x)"
    using nonneg by (intro rounded_finite small_below_limit)
  moreover have "\<not> sum_list ds < 0" using s(1) by simp
  ultimately show "int_truediv (sum_list ds) (int (length ds)) = Inr (Finite (binary64 ?x))"
    using len by (simp add: int_truediv_def)
qed

lemma get_performance_metrics_rounded:
  assumes "total_questions st \<noteq> 0" and "0 \<le> correct_answers st"
    and "correct_answers st \<le> total_questions st"
    and "\<forall>e \<in> set (questions_history st). 1 \<le> h_difficulty e \<and> h_difficulty e \<le> 3"
  shows "get_performance_metrics st =
      Inr \<lparr>m_total_questions = total_questions st, m_correct_answers = correct_answers st,
           accuracy = VFloat (Finite (binary64
             (binary64 (of_int (correct_answers st) / of_int (total_questions st)) * 100))),
           avg_difficulty =
             (if questions_history st = [] then VInt 1
              else VFloat (Finite (binary64
                (of_int (sum_list (map h_difficulty (questions_history st))) /
                 real (length (questions_history st)))))),
           m_max_difficulty_reached = max_difficulty_reached st,
           m_current_difficulty = current_difficulty st\<rparr>"
proof -
  let ?q = "binary64 (of_int (correct_answers st) / of_int (total_questions st))"
  note ratio = ratio_rounded [OF assms(2,3,1)]
  have t: "0 < total_questions st" using assms(1,2,3) by linarith
  have x: "0 \<le> real_of_int (correct_answers st) / real_of_int (total_questions st)"
    "real_of_int (correct_answers st) / real_of_int (total_questions st) \<le> 1"
    using assms(2,3) t by simp_all
  have percent: "float_mul (Finite ?q) (Finite 100) = Finite (binary64 (?q * 100))"
    using ratio(2,3) x by (rule percent_rounded(1))
  show ?thesis
  proof (cases "questions_history st = []")
    case True
    then show ?thesis
      using assms(1) ratio(1) percent by (simp add: get_performance_metrics_def Let_def)
  next
    case False
    then have ds: "map h_difficulty (questions_history st) \<noteq> []" by simp
    have "\<forall>d \<in> set (map h_difficulty (questions_history st)). 1 \<le> d \<and> d \<le> 3"
      using assms(4) by simp
    from mean_rounded(1) [OF ds this] False show ?thesis
      using assms(1) ratio(1) percent by (simp add: get_performance_metrics_def Let_def)
  qed
qed

lemma get_performance_metrics_no_zero_division:
  "get_performance_metrics st \<noteq> Inl ZeroDivisionError"
proof (cases "total_questions st = 0")
  case True
  then show ?thesis by (simp add: get_performance_metrics_def)
next
  case False
  then have a: "int_truediv (correct_answers st) (total_questions st) \<noteq> Inl ZeroDivisionError"
    by (simp add: int_truediv_zero)
  have b: "int_truediv (sum_list (map h_difficulty (questions_history st)))
        (int (length (questions_history st))) \<noteq> Inl ZeroDivisionError"
    if "questions_history st \<noteq> []"
    using that by (simp add: int_truediv_zero)
  show ?thesis
    using False a b
    by (auto simp: get_performance_metrics_def Let_def split: sum.splits if_splits)
qed

lemma get_performance_metrics_zero:
  "total_questions st = 0 \<Longrightarrow>
   get_performance_metrics st =
     Inr \<lparr>m_total_questions = 0, m_correct_answers = correct_answers st,
          accuracy = VInt 0, avg_difficulty = VInt 1,
          m_max_difficulty_reached = max_difficulty_reached st,
          m_current_difficulty = current_difficulty st\<rparr>"
  by (simp add: get_performance_metrics_def)

lemma get_performance_metrics_fields:
  assumes "get_performance_metrics st = Inr m"
  shows "m_max_difficulty_reached m = max_difficulty_reached st"
    and "m_current_difficulty m = current_difficulty st"
  using assms
  by (auto simp: get_performance_metrics_def Let_def split: if_splits sum.splits prod.splits)

section \<open>Properties of the session\<close>

lemma generate_question_difficulty:
  "q_difficulty (fst (generate_question loads handler content d asked topic)) = d"
  by (simp add: generate_question_def call_chat_def error_question_def Let_def
      split: chat_result.splits sum.splits py_error.splits pyval.splits)

lemma request_question_scores:
  "questions_history (request_question loads st) = questions_history st"
  "current_difficulty (request_question loads st) = current_difficulty st"
  "performance_window (request_question loads st) = performance_window st"
  "max_difficulty_reached (request_question loads st) = max_difficulty_reached st"
  "total_questions (request_question loads st) = total_questions st"
  "correct_answers (request_question loads st) = correct_answers st"
  "show_feedback (request_question loads st) = show_feedback st"
  "assessment_started (request_question loads st) = assessment_started st"
  "assessment_complete (request_question loads st) = assessment_complete st"
  by (simp_all add: request_question_def Let_def split: prod.splits)

lemma request_question_fresh:
  "\<not> show_feedback st \<Longrightarrow>
   \<exists>q. current_question (request_question loads st) = Some q \<and> q_difficulty q = current_difficulty st"
  using generate_question_difficulty [of loads "llm st" "pdf_content st" "current_difficulty st" "asked_questions st" None]
  by (auto simp: request_question_def Let_def split: prod.splits)


lemma error_view_scores: "same_scores st (snd (error_view pressed st))"
  by (simp add: error_view_def same_scores_def)

lemma feedback_view_scores: "same_scores st (snd (feedback_view pressed question st))"
  by (simp add: feedback_view_def same_scores_def split: option.splits)

lemma answer_form_cases:
  "same_scores st (snd (answer_form upper pressed question st)) \<or>
   (\<exists>options answer correct.
      snd (answer_form upper pressed question st) = submit_answer upper question options answer correct st)"
  by (auto simp: answer_form_def same_scores_def split: pyval.splits click.splits option.splits)


lemma same_scores_consistent:
  "same_scores st st' \<Longrightarrow> scores_consistent st \<Longrightarrow> scores_consistent st'"
  by (simp add: same_scores_def scores_consistent_def)

lemma request_question_same_scores: "same_scores st (request_question loads st)"
  by (simp add: same_scores_def request_question_scores)

lemma submit_answer_fields:
  "performance_window (submit_answer upper question options answer correct st) =
     performance_window st @
       [if is_correct (fst (evaluate_answer upper (llm st)
             (dict_get (q_data question) (ascii ''question'') (VStr [])) answer correct options
             (pdf_content st))) then 1 else 0]"
  "current_difficulty (submit_answer upper question options answer correct st) =
     calculate_adaptive_difficulty
       (performance_window (submit_answer upper question options answer correct st))
       (current_difficulty st)"
  "max_difficulty_reached (submit_answer upper question options answer correct st) =
     max (max_difficulty_reached st)
       (current_difficulty (submit_answer upper question options answer correct st))"
  "total_questions (submit_answer upper question options answer correct st) = total_questions st + 1"
  "correct_answers (submit_answer upper question options answer correct st) =
     (if is_correct (fst (evaluate_answer upper (llm st)
             (dict_get (q_data question) (ascii ''question'') (VStr [])) answer correct options
             (pdf_content st))) then correct_answers st + 1 else correct_answers st)"
  "\<exists>entry. questions_history (submit_answer upper question options answer correct st) =
       questions_history st @ [entry] \<and> h_difficulty entry = q_difficulty question \<and>
       h_is_correct entry = is_correct (fst (evaluate_answer upper (llm st)
             (dict_get (q_data question) (ascii ''question'') (VStr [])) answer correct options
             (pdf_content st)))"
  by (simp_all add: submit_answer_def Let_def split: prod.splits)

lemma submit_answer_consistent:
  assumes "scores_consistent st" and "q_difficulty question = current_difficulty st"
  shows "scores_consistent (submit_answer upper question options answer correct st)"
proof -
  let ?st' = "submit_answer upper question options answer correct st"
  obtain entry where entry: "questions_history ?st' = questions_history st @ [entry]"
      "h_difficulty entry = q_difficulty question"
      "h_is_correct entry = is_correct (fst (evaluate_answer upper (llm st)
             (dict_get (q_data question) (ascii ''question'') (VStr [])) answer correct options
             (pdf_content st)))"
    using submit_answer_fields(6) by blast
  have cur: "current_difficulty st \<in> {1, 2, 3}" using assms(1) by (simp add: scores_consistent_def)
  then have r: "1 \<le> current_difficulty st" "current_difficulty st \<le> 3" by auto
  have new: "1 \<le> current_difficulty ?st' \<and> current_difficulty ?st' \<le> 3"
    unfolding submit_answer_fields(2) by (rule calculate_adaptive_difficulty_range [OF r])
  have mono: "list_all (\<lambda>e. h_difficulty e \<le> max_difficulty_reached ?st') (questions_history st)"
    using assms(1) unfolding submit_answer_fields(3) scores_consistent_def
    by (auto simp: list_all_iff)
  show ?thesis
    unfolding scores_consistent_def
  proof (intro conjI)
    show "current_difficulty ?st' \<in> {1, 2, 3}" using new by auto
    show "max_difficulty_reached ?st' \<in> {1, 2, 3}"
      unfolding submit_answer_fields(3) using new assms(1)
      by (auto simp: scores_consistent_def max_def)
    show "current_difficulty ?st' \<le> max_difficulty_reached ?st'"
      unfolding submit_answer_fields(3) by simp
    have "current_difficulty st \<le> max_difficulty_reached ?st'"
      using assms(1) unfolding submit_answer_fields(3) scores_consistent_def by linarith
    then show "list_all (\<lambda>e. h_difficulty e \<le> max_difficulty_reached ?st') (questions_history ?st')"
      using mono entry(1,2) assms(2) by simp
    show "list_all (\<lambda>e. 1 \<le> h_difficulty e) (questions_history ?st')"
      using assms entry(1,2) r(1) by (simp add: scores_consistent_def)
    show "total_questions ?st' = int (length (questions_history ?st'))"
      using assms(1) entry(1) by (simp add: submit_answer_fields(4) scores_consistent_def)
    show "correct_answers ?st' = int (length (filter h_is_correct (questions_history ?st')))"
      using assms(1) entry by (simp add: submit_answer_fields(5) scores_consistent_def)
    show "performance_window ?st' =
        map (\<lambda>e. if h_is_correct e then 1 else 0) (questions_history ?st')"
      using assms(1) entry by (simp add: submit_answer_fields(1) scores_consistent_def)
  qed
qed

lemma metrics_returned:
  assumes "scores_consistent st"
  shows "\<exists>m. get_performance_metrics st = Inr m"
proof (cases "total_questions st = 0")
  case True
  then show ?thesis by (simp add: get_performance_metrics_def)
next
  case False
  have "0 \<le> correct_answers st" "correct_answers st \<le> total_questions st"
    using assms by (simp_all add: scores_consistent_def)
  moreover have "\<forall>e \<in> set (questions_history st). 1 \<le> h_difficulty e \<and> h_difficulty e \<le> 3"
    using assms by (auto simp: scores_consistent_def list_all_iff)
  ultimately show ?thesis
    using get_performance_metrics_rounded [OF False] by blast
qed

lemma render_question_consistent:
  assumes "scores_consistent st0"
  shows "scores_consistent (snd (render_question loads upper pressed st0))"
proof -
  let ?st = "request_question loads st0"
  have st: "scores_consistent ?st"
    using request_question_same_scores assms by (rule same_scores_consistent)
  have kept: "scores_consistent st'" if "same_scores ?st st'" for st'
    using that st by (rule same_scores_consistent)
  obtain metrics where metrics: "get_performance_metrics ?st = Inr metrics"
    using metrics_returned [OF st] by blast
  note render_question_def = render_question_def [of loads upper pressed st0, unfolded Let_def metrics]
    get_performance_metrics_fields [OF metrics]
  show ?thesis
  proof (cases "current_difficulty ?st \<notin> {1, 2, 3} \<or> max_difficulty_reached ?st \<notin> {1, 2, 3}")
    case True
    then show ?thesis using st by (auto simp: render_question_def Let_def)
  next
    case ok: False
    show ?thesis
    proof (cases "current_question ?st")
      case None
      then show ?thesis using st ok by (auto simp: render_question_def Let_def)
    next
      case (Some question)
      show ?thesis
      proof (cases "truthy (dict_get (q_data question) (ascii ''error'') VNone)")
        case True
        then show ?thesis
          using ok Some kept [OF error_view_scores, of pressed]
          by (auto simp: render_question_def Let_def)
      next
        case noerr: False
        show ?thesis
        proof (cases "q_difficulty question \<notin> {1, 2, 3}")
          case True
          then show ?thesis using st ok Some noerr by (auto simp: render_question_def Let_def)
        next
          case qok: False
          show ?thesis
          proof (cases "show_feedback ?st")
            case True
            then show ?thesis
              using ok Some noerr qok kept [OF feedback_view_scores, of pressed question]
              by (auto simp: render_question_def Let_def)
          next
            case False
            then have "\<not> show_feedback st0" by (simp add: request_question_scores)
            from request_question_fresh [OF this, of loads] Some
            have fresh: "q_difficulty question = current_difficulty ?st"
              by (simp add: request_question_scores)
            have res: "snd (render_question loads upper pressed st0) =
                snd (answer_form upper pressed question ?st)"
              using ok Some noerr qok False by (auto simp: render_question_def Let_def)
            from answer_form_cases [of ?st upper pressed question] show ?thesis
            proof
              assume "same_scores ?st (snd (answer_form upper pressed question ?st))"
              then show ?thesis using res kept by simp
            next
              assume "\<exists>options answer correct.
                snd (answer_form upper pressed question ?st) =
                  submit_answer upper question options answer correct ?st"
              then show ?thesis
                using res submit_answer_consistent [OF st fresh] by auto
            qed
          qed
        qed
      qed
    qed
  qed
qed

lemma init_consistent: "scores_consistent (init_session_state content handler)"
  by (simp add: scores_consistent_def init_session_state_def)

lemma sidebar_upload_consistent: "scores_consistent (sidebar_upload content st)"
  by (simp add: scores_consistent_def sidebar_upload_def)

lemma start_new_assessment_consistent: "scores_consistent (start_new_assessment st)"
  by (simp add: scores_consistent_def start_new_assessment_def)

lemma start_consistent:
  "scores_consistent st \<Longrightarrow> scores_consistent (st\<lparr>assessment_started := True\<rparr>)"
  by (simp add: scores_consistent_def)

lemma main_consistent:
  "scores_consistent st \<Longrightarrow> scores_consistent (main loads upper ev st)"
proof (cases ev)
  case (Run pressed)
  assume "scores_consistent st"
  then show ?thesis
    unfolding main_def Run
    by (simp add: render_question_consistent start_new_assessment_consistent start_consistent
        split: sum.splits option.splits)
next
  case (Upload content)
  then show ?thesis by (simp add: main_def sidebar_upload_consistent)
qed

lemma session_consistent:
  "scores_consistent st \<Longrightarrow> scores_consistent (session loads upper evs st)"
  by (induction evs arbitrary: st) (simp_all add: main_consistent)

lemma ascii_nil_iff: "(ascii s = []) = (s = [])"
  by (simp add: ascii_def)


text \<open>
  Claim C4. In every state a session reaches from the initial state, whatever the events,
  the decoder and the answers of the model, the peak difficulty is at least the current
  difficulty and at least the difficulty recorded in every history entry. Recording an
  answer appends the correctness bit to the window, computes the new difficulty by the
  controller from the new window and the old difficulty, and sets the peak to the maximum
  of the old peak and the new difficulty.
\<close>

theorem peak_bounds_current_and_history:
  "current_difficulty (session loads upper events (init_session_state content handler))
     \<le> max_difficulty_reached (session loads upper events (init_session_state content handler)) \<and>
   (\<forall>entry \<in> set (questions_history (session loads upper events (init_session_state content handler))).
      h_difficulty entry
        \<le> max_difficulty_reached (session loads upper events (init_session_state content handler))) \<and>
   performance_window (submit_answer upper question options answer correct st) =
     performance_window st @
       [if is_correct (fst (evaluate_answer upper (llm st)
             (dict_get (q_data question) (ascii ''question'') (VStr [])) answer correct options
             (pdf_content st))) then 1 else 0] \<and>
   current_difficulty (submit_answer upper question options answer correct st) =
     calculate_adaptive_difficulty
       (performance_window (submit_answer upper question options answer correct st))
       (current_difficulty st) \<and>
   max_difficulty_reached (submit_answer upper question options answer correct st) =
     max (max_difficulty_reached st)
       (current_difficulty (submit_answer upper question options answer correct st))"
proof -
  let ?S = "session loads upper events (init_session_state content handler)"
  have "scores_consistent ?S"
    using init_consistent by (rule session_consistent)
  then have "current_difficulty ?S \<le> max_difficulty_reached ?S"
    and "\<forall>entry \<in> set (questions_history ?S). h_difficulty entry \<le> max_difficulty_reached ?S"
    by (simp_all add: scores_consistent_def list_all_iff)
  then show ?thesis
    using submit_answer_fields(1,2,3) [of upper question options answer correct st]
    by (intro conjI)
qed


theorem peak_bounds_current_and_history_witness:
  "current_difficulty
     (session
        (\<lambda>s. Returns (VDict [(ascii ''options'', VDict [(ascii ''A'', VStr (ascii ''yes''))]),
                           (ascii ''correct_answer'', VStr (ascii ''A''))]))
        (\<lambda>s. s)
        [Run StartAssessment,
         Run (SubmitAnswer (Some (ascii ''A''))), Run NextQuestion,
         Run (SubmitAnswer (Some (ascii ''A''))), Run NextQuestion,
         Run (SubmitAnswer (Some (ascii ''A''))), Run NextQuestion,
         Run (SubmitAnswer (Some (ascii ''B''))), Run NextQuestion,
         Run (SubmitAnswer (Some (ascii ''B'')))]
        (init_session_state (ascii ''text'')
           \<lparr>outcomes = \<lambda>n. ChatReturns (ascii ''q''), calls = 0\<rparr>)) = 2 \<and>
   max_difficulty_reached
     (session
        (\<lambda>s. Returns (VDict [(ascii ''options'', VDict [(ascii ''A'', VStr (ascii ''yes''))]),
                           (ascii ''correct_answer'', VStr (ascii ''A''))]))
        (\<lambda>s. s)
        [Run StartAssessment,
         Run (SubmitAnswer (Some (ascii ''A''))), Run NextQuestion,
         Run (SubmitAnswer (Some (ascii ''A''))), Run NextQuestion,
         Run (SubmitAnswer (Some (ascii ''A''))), Run NextQuestion,
         Run (SubmitAnswer (Some (ascii ''B''))), Run NextQuestion,
         Run (SubmitAnswer (Some (ascii ''B'')))]
        (init_session_state (ascii ''text'')
           \<lparr>outcomes = \<lambda>n. ChatReturns (ascii ''q''), calls = 0\<rparr>)) = 3 \<and>
   map h_difficulty (questions_history
     (session
        (\<lambda>s. Returns (VDict [(ascii ''options'', VDict [(ascii ''A'', VStr (ascii ''yes''))]),
                           (ascii ''correct_answer'', VStr (ascii ''A''))]))
        (\<lambda>s. s)
        [Run StartAssessment,
         Run (SubmitAnswer (Some (ascii ''A''))), Run NextQuestion,
         Run (SubmitAnswer (Some (ascii ''A''))), Run NextQuestion,
         Run (SubmitAnswer (Some (ascii ''A''))), Run NextQuestion,
         Run (SubmitAnswer (Some (ascii ''B''))), Run NextQuestion,
         Run (SubmitAnswer (Some (ascii ''B'')))]
        (init_session_state (ascii ''text'')
           \<lparr>outcomes = \<lambda>n. ChatReturns (ascii ''q''), calls = 0\<rparr>))) = [1, 1, 1, 2, 3]"
proof -
  let ?S = "(session
        (\<lambda>s. Returns (VDict [(ascii ''options'', VDict [(ascii ''A'', VStr (ascii ''yes''))]),
                           (ascii ''correct_answer'', VStr (ascii ''A''))]))
        (\<lambda>s. s)
        [Run StartAssessment,
         Run (SubmitAnswer (Some (ascii ''A''))), Run NextQuestion,
         Run (SubmitAnswer (Some (ascii ''A''))), Run NextQuestion,
         Run (SubmitAnswer (Some (ascii ''A''))), Run NextQuestion,
         Run (SubmitAnswer (Some (ascii ''B''))), Run NextQuestion,
         Run (SubmitAnswer (Some (ascii ''B'')))]
        (init_session_state (ascii ''text'')
           \<lparr>outcomes = \<lambda>n. ChatReturns (ascii ''q''), calls = 0\<rparr>))"
  note defs = main_def init_session_state_def render_question_def request_question_def
      generate_question_def parse_json_response_def try_loads_def call_chat_def DIFFICULTY_LEVELS_def
      answer_form_def feedback_view_def error_view_def submit_answer_def evaluate_answer_def
      calculate_adaptive_difficulty_def dict_get_def ascii_eq_iff ascii_nil_iff Let_def
      get_performance_metrics_zero get_performance_metrics_rounded
  have bound: "current_difficulty ?S \<le> max_difficulty_reached ?S"
    by (rule peak_bounds_current_and_history [THEN conjunct1])
  have current: "current_difficulty ?S = 2"
    by (simp add: defs)
  have peak: "max_difficulty_reached ?S = 3"
    by (simp add: defs)
  have history: "map h_difficulty (questions_history ?S) = [1, 1, 1, 2, 3]"
    by (simp add: defs)
  from bound current peak history show ?thesis
    by simp
qed

text \<open>
  Claim C3. From a difficulty among 1, 2, 3 the controller returns a difficulty between 1
  and 3, on a window of any length and contents; so any number of repeated calls, each
  after appending arbitrary entries to the window, ends between 1 and 3. In particular
  the current difficulty of a session, which starts at 1 and changes by these calls only,
  is between 1 and 3 in every state the session reaches.
\<close>

theorem next_difficulty_stays_in_range:
  assumes "current \<in> {1, 2, 3}"
  shows "calculate_adaptive_difficulty window current \<in> {1, 2, 3} \<and>
         repeated_calls window current appended \<in> {1, 2, 3} \<and>
         current_difficulty (session loads upper events (init_session_state content handler))
           \<in> {1, 2, 3}"
proof -
  have step: "calculate_adaptive_difficulty w c \<in> {1, 2, 3}" if "c \<in> {1, 2, 3}" for w c
  proof -
    from that have "1 \<le> c" and "c \<le> 3" by auto
    from calculate_adaptive_difficulty_range [OF this, of w] show ?thesis by auto
  qed
  have one: "calculate_adaptive_difficulty window current \<in> {1, 2, 3}"
    using assms by (rule step)
  have many: "repeated_calls window current appended \<in> {1, 2, 3}"
    using assms
  proof (induction appended arbitrary: window current)
    case Nil
    then show ?case by simp
  next
    case (Cons bits rest)
    have "calculate_adaptive_difficulty (window @ bits) current \<in> {1, 2, 3}"
      using Cons.prems by (rule step)
    then show ?case
      using Cons.IH by simp
  qed
  have "scores_consistent (session loads upper events (init_session_state content handler))"
    using init_consistent by (rule session_consistent)
  then have reached:
    "current_difficulty (session loads upper events (init_session_state content handler))
       \<in> {1, 2, 3}"
    by (simp add: scores_consistent_def)
  from one many reached show ?thesis by (intro conjI)
qed

theorem next_difficulty_stays_in_range_witness:
  "(3 :: int) \<in> {1, 2, 3} \<and> calculate_adaptive_difficulty [1, 1, 1] 3 = 3 \<and>
   repeated_calls [1, 1] 3 [[0], [0, 0], [], [7, 1, 1]] = 2"
proof -
  have a: "(3 :: int) \<in> {1, 2, 3}" by simp
  have "calculate_adaptive_difficulty [1, 1, 1] 3 \<in> {1, 2, 3} \<and>
      repeated_calls [1, 1] 3 [[0], [0, 0], [], [7, 1, 1]] \<in> {1, 2, 3}"
    using next_difficulty_stays_in_range
      [OF a, where window = "[1, 1]" and appended = "[[0], [0, 0], [], [7, 1, 1]]"]
    by (simp add: calculate_adaptive_difficulty_def)
  then show ?thesis
    by (simp add: calculate_adaptive_difficulty_def)
qed

section \<open>Properties of the metrics\<close>

lemma binary64_examples:
  "binary64 (binary64 (23 / 40) * 100) = 8092405580431359 / 2 ^ 47"
  "binary64 (binary64 (3 / 4) * 100) = 75"
  "binary64 (7 / 4) = 7 / 4"
  "binary64 1 = 1"
proof -
  have "binary64 (23 / 40) = 5179139571476070 / 2 ^ 53"
    using binary64_eval [of "-1" "23 / 40" 5179139571476070]
    by (simp add: power_int_minus field_simps)
  moreover have "binary64 (5179139571476070 / 2 ^ 53 * 100) = 8092405580431359 / 2 ^ 47"
    using binary64_eval [of 5 "5179139571476070 / 2 ^ 53 * 100" 8092405580431359]
    by (simp add: power_int_minus field_simps)
  ultimately show "binary64 (binary64 (23 / 40) * 100) = 8092405580431359 / 2 ^ 47"
    by (simp only:)
  have "binary64 (3 / 4) = 3 / 4"
    using binary64_eval [of "-1" "3 / 4" "3 * 2 ^ 51"]
    by (simp add: power_int_minus field_simps)
  moreover have "binary64 (3 / 4 * 100) = 75"
    using binary64_eval [of 6 "3 / 4 * 100" "75 * 2 ^ 46"]
    by (simp add: power_int_minus field_simps)
  ultimately show "binary64 (binary64 (3 / 4) * 100) = 75"
    by (simp only:)
  show "binary64 (7 / 4) = 7 / 4"
    using binary64_eval [of 0 "7 / 4" "7 * 2 ^ 50"]
    by (simp add: power_int_minus field_simps)
  show "binary64 1 = 1"
    using binary64_eval [of 0 1 "2 ^ 52"]
    by (simp add: power_int_minus field_simps)
qed

text \<open>
  Claim C5 as stated fails: the accuracy is not \<open>100 * correct / total\<close>. With 23 correct
  answers out of 40 that number is 57.5, which is a \<^verbatim>\<open>float\<close>, but \<^verbatim>\<open>23 / 40\<close> is rounded
  before it is multiplied by 100 and the product is rounded again: the accuracy is
  \<open>8092405580431359 / 2 ^ 47\<close>, which Python prints as \<^verbatim>\<open>57.49999999999999\<close> and the header
  of the page as 57 percent.
\<close>

theorem get_performance_metrics_rounds_twice:
  "get_performance_metrics
     ((init_session_state (ascii ''text'') \<lparr>outcomes = \<lambda>n. ChatReturns (ascii ''q''), calls = 0\<rparr>)
        \<lparr>questions_history :=
            replicate 23
              \<lparr>h_question = VNone, h_topic = VNone, h_difficulty = 1, h_user_answer = ascii ''A'',
               h_correct_answer = ascii ''A'', h_is_correct = True, h_explanation = VNone\<rparr> @
            replicate 17
              \<lparr>h_question = VNone, h_topic = VNone, h_difficulty = 1, h_user_answer = ascii ''B'',
               h_correct_answer = ascii ''A'', h_is_correct = False, h_explanation = VNone\<rparr>,
          total_questions := 40, correct_answers := 23\<rparr>) =
     Inr \<lparr>m_total_questions = 40, m_correct_answers = 23,
          accuracy = VFloat (Finite (8092405580431359 / 2 ^ 47)),
          avg_difficulty = VFloat (Finite 1),
          m_max_difficulty_reached = 1, m_current_difficulty = 1\<rparr> \<and>
   (8092405580431359 / 2 ^ 47 :: real) \<noteq> 100 * 23 / 40"
proof -
  let ?st = "(init_session_state (ascii ''text'') \<lparr>outcomes = \<lambda>n. ChatReturns (ascii ''q''), calls = 0\<rparr>)
        \<lparr>questions_history :=
            replicate 23
              \<lparr>h_question = VNone, h_topic = VNone, h_difficulty = 1, h_user_answer = ascii ''A'',
               h_correct_answer = ascii ''A'', h_is_correct = True, h_explanation = VNone\<rparr> @
            replicate 17
              \<lparr>h_question = VNone, h_topic = VNone, h_difficulty = 1, h_user_answer = ascii ''B'',
               h_correct_answer = ascii ''A'', h_is_correct = False, h_explanation = VNone\<rparr>,
          total_questions := 40, correct_answers := 23\<rparr>"
  have "get_performance_metrics ?st =
     Inr \<lparr>m_total_questions = 40, m_correct_answers = 23,
          accuracy = VFloat (Finite (8092405580431359 / 2 ^ 47)),
          avg_difficulty = VFloat (Finite 1),
          m_max_difficulty_reached = 1, m_current_difficulty = 1\<rparr>"
    using get_performance_metrics_rounded [of ?st]
    by (simp add: init_session_state_def binary64_examples sum_list_replicate)
  moreover have "(8092405580431359 / 2 ^ 47 :: real) \<noteq> 100 * 23 / 40"
    by simp
  ultimately show ?thesis ..
qed

text \<open>
  Claim C5, amended. When the total is 0 the metrics are the integers 0 and 1, and no
  division is made; in no state does \<^verbatim>\<open>get_performance_metrics\<close> raise
  \<^verbatim>\<open>ZeroDivisionError\<close>.  When the total is not 0, the correct answers are between 0 and
  the total and the recorded difficulties are levels, the accuracy is the \<^verbatim>\<open>float\<close> nearest
  to 100 times the \<^verbatim>\<open>float\<close> nearest to \<open>correct / total\<close>, which is within \<open>1 / 2 ^ 45\<close> of
  \<open>100 * correct / total\<close>, and the mean difficulty is 1 for an empty history and otherwise
  the \<^verbatim>\<open>float\<close> nearest to the arithmetic mean of the recorded difficulties, within
  \<open>1 / 2 ^ 52\<close> of it. States that agree on the counters, the history and the two
  difficulties have the same metrics. In every state of a session the total is the length
  of the history, the number of correct answers is the number of its correct entries and
  the recorded difficulties are levels, so there the metrics are returned and are as
  above.
\<close>

theorem metrics_from_history:
  "(total_questions st = 0 \<longrightarrow>
      get_performance_metrics st =
        Inr \<lparr>m_total_questions = 0, m_correct_answers = correct_answers st,
             accuracy = VInt 0, avg_difficulty = VInt 1,
             m_max_difficulty_reached = max_difficulty_reached st,
             m_current_difficulty = current_difficulty st\<rparr>) \<and>
   get_performance_metrics st \<noteq> Inl ZeroDivisionError \<and>
   (total_questions st \<noteq> 0 \<and> 0 \<le> correct_answers st \<and>
    correct_answers st \<le> total_questions st \<and>
    (\<forall>e \<in> set (questions_history st). 1 \<le> h_difficulty e \<and> h_difficulty e \<le> 3) \<longrightarrow>
      get_performance_metrics st =
        Inr \<lparr>m_total_questions = total_questions st, m_correct_answers = correct_answers st,
             accuracy = VFloat (Finite (binary64
               (binary64 (of_int (correct_answers st) / of_int (total_questions st)) * 100))),
             avg_difficulty =
               (if questions_history st = [] then VInt 1
                else VFloat (Finite (binary64
                  (of_int (sum_list (map h_difficulty (questions_history st))) /
                   real (length (questions_history st)))))),
             m_max_difficulty_reached = max_difficulty_reached st,
             m_current_difficulty = current_difficulty st\<rparr> \<and>
      \<bar>binary64 (binary64 (of_int (correct_answers st) / of_int (total_questions st)) * 100) -
        100 * of_int (correct_answers st) / of_int (total_questions st)\<bar> \<le> 1 / 2 ^ 45 \<and>
      \<bar>binary64 (of_int (sum_list (map h_difficulty (questions_history st))) /
                 real (length (questions_history st))) -
        of_int (sum_list (map h_difficulty (questions_history st))) /
          real (length (questions_history st))\<bar> \<le> 1 / 2 ^ 52) \<and>
   (total_questions st2 = total_questions st \<and> correct_answers st2 = correct_answers st \<and>
    questions_history st2 = questions_history st \<and>
    max_difficulty_reached st2 = max_difficulty_reached st \<and>
    current_difficulty st2 = current_difficulty st \<longrightarrow>
      get_performance_metrics st2 = get_performance_metrics st) \<and>
   total_questions (session loads upper events (init_session_state content handler)) =
     int (length (questions_history (session loads upper events (init_session_state content handler)))) \<and>
   correct_answers (session loads upper events (init_session_state content handler)) =
     int (length (filter h_is_correct
        (questions_history (session loads upper events (init_session_state content handler))))) \<and>
   (\<forall>e \<in> set (questions_history (session loads upper events (init_session_state content handler))).
      1 \<le> h_difficulty e \<and> h_difficulty e \<le> 3) \<and>
   (\<exists>m. get_performance_metrics (session loads upper events (init_session_state content handler)) =
      Inr m)"
proof -
  let ?S = "session loads upper events (init_session_state content handler)"
  have zero: "total_questions st = 0 \<longrightarrow>
      get_performance_metrics st =
        Inr \<lparr>m_total_questions = 0, m_correct_answers = correct_answers st,
             accuracy = VInt 0, avg_difficulty = VInt 1,
             m_max_difficulty_reached = max_difficulty_reached st,
             m_current_difficulty = current_difficulty st\<rparr>"
    by (simp add: get_performance_metrics_def)
  have guarded: "get_performance_metrics st \<noteq> Inl ZeroDivisionError"
    by (rule get_performance_metrics_no_zero_division)
  have nonzero: "total_questions st \<noteq> 0 \<and> 0 \<le> correct_answers st \<and>
    correct_answers st \<le> total_questions st \<and>
    (\<forall>e \<in> set (questions_history st). 1 \<le> h_difficulty e \<and> h_difficulty e \<le> 3) \<longrightarrow>
      get_performance_metrics st =
        Inr \<lparr>m_total_questions = total_questions st, m_correct_answers = correct_answers st,
             accuracy = VFloat (Finite (binary64
               (binary64 (of_int (correct_answers st) / of_int (total_questions st)) * 100))),
             avg_difficulty =
               (if questions_history st = [] then VInt 1
                else VFloat (Finite (binary64
                  (of_int (sum_list (map h_difficulty (questions_history st))) /
                   real (length (questions_history st)))))),
             m_max_difficulty_reached = max_difficulty_reached st,
             m_current_difficulty = current_difficulty st\<rparr> \<and>
      \<bar>binary64 (binary64 (of_int (correct_answers st) / of_int (total_questions st)) * 100) -
        100 * of_int (correct_answers st) / of_int (total_questions st)\<bar> \<le> 1 / 2 ^ 45 \<and>
      \<bar>binary64 (of_int (sum_list (map h_difficulty (questions_history st))) /
                 real (length (questions_history st))) -
        of_int (sum_list (map h_difficulty (questions_history st))) /
          real (length (questions_history st))\<bar> \<le> 1 / 2 ^ 52"
  proof (intro impI, elim conjE, intro conjI)
    assume a: "total_questions st \<noteq> 0" "0 \<le> correct_answers st"
      "correct_answers st \<le> total_questions st"
      "\<forall>e \<in> set (questions_history st). 1 \<le> h_difficulty e \<and> h_difficulty e \<le> 3"
    show "get_performance_metrics st =
        Inr \<lparr>m_total_questions = total_questions st, m_correct_answers = correct_answers st,
             accuracy = VFloat (Finite (binary64
               (binary64 (of_int (correct_answers st) / of_int (total_questions st)) * 100))),
             avg_difficulty =
               (if questions_history st = [] then VInt 1
                else VFloat (Finite (binary64
                  (of_int (sum_list (map h_difficulty (questions_history st))) /
                   real (length (questions_history st)))))),
             m_max_difficulty_reached = max_difficulty_reached st,
             m_current_difficulty = current_difficulty st\<rparr>"
      using a by (rule get_performance_metrics_rounded)
    have t: "0 < total_questions st" using a(1,2,3) by linarith
    have x: "0 \<le> real_of_int (correct_answers st) / real_of_int (total_questions st)"
      "real_of_int (correct_answers st) / real_of_int (total_questions st) \<le> 1"
      using a(2,3) t by simp_all
    note ratio = ratio_rounded [OF a(2,3,1)]
    have "\<bar>binary64 (binary64 (of_int (correct_answers st) / of_int (total_questions st)) * 100) -
        100 * (of_int (correct_answers st) / of_int (total_questions st))\<bar> \<le> 1 / 2 ^ 45"
      using ratio(2,3) x by (rule percent_rounded(2))
    then show "\<bar>binary64 (binary64 (of_int (correct_answers st) / of_int (total_questions st)) * 100) -
        100 * of_int (correct_answers st) / of_int (total_questions st)\<bar> \<le> 1 / 2 ^ 45"
      by simp
    show "\<bar>binary64 (of_int (sum_list (map h_difficulty (questions_history st))) /
                 real (length (questions_history st))) -
        of_int (sum_list (map h_difficulty (questions_history st))) /
          real (length (questions_history st))\<bar> \<le> 1 / 2 ^ 52"
    proof (cases "questions_history st = []")
      case True
      then show ?thesis by (simp add: binary64_def)
    next
      case False
      then have ds: "map h_difficulty (questions_history st) \<noteq> []" by simp
      have "\<forall>d \<in> set (map h_difficulty (questions_history st)). 1 \<le> d \<and> d \<le> 3"
        using a(4) by simp
      from mean_rounded(2) [OF ds this] show ?thesis by simp
    qed
  qed
  have same: "total_questions st2 = total_questions st \<and> correct_answers st2 = correct_answers st \<and>
    questions_history st2 = questions_history st \<and>
    max_difficulty_reached st2 = max_difficulty_reached st \<and>
    current_difficulty st2 = current_difficulty st \<longrightarrow>
      get_performance_metrics st2 = get_performance_metrics st"
    unfolding get_performance_metrics_def by (intro impI) (elim conjE, simp only:)
  have inv: "scores_consistent ?S"
    using init_consistent by (rule session_consistent)
  then have total: "total_questions ?S = int (length (questions_history ?S))"
    and correct: "correct_answers ?S = int (length (filter h_is_correct (questions_history ?S)))"
    by (simp_all add: scores_consistent_def)
  have levels: "\<forall>e \<in> set (questions_history ?S). 1 \<le> h_difficulty e \<and> h_difficulty e \<le> 3"
    using inv by (auto simp: scores_consistent_def list_all_iff)
  have returned: "\<exists>m. get_performance_metrics ?S = Inr m"
  proof (cases "total_questions ?S = 0")
    case True
    then show ?thesis by (simp add: get_performance_metrics_def)
  next
    case False
    have "0 \<le> correct_answers ?S" "correct_answers ?S \<le> total_questions ?S"
      unfolding total correct by simp_all
    from get_performance_metrics_rounded [OF False this levels] show ?thesis by blast
  qed
  from zero guarded nonzero same total correct levels returned show ?thesis
    by (intro conjI)
qed

theorem metrics_from_history_witness:
  "get_performance_metrics (init_session_state (ascii ''text'')
      \<lparr>outcomes = \<lambda>n. ChatReturns (ascii ''q''), calls = 0\<rparr>) =
     Inr \<lparr>m_total_questions = 0, m_correct_answers = 0, accuracy = VInt 0,
          avg_difficulty = VInt 1, m_max_difficulty_reached = 1, m_current_difficulty = 1\<rparr> \<and>
   get_performance_metrics
     ((init_session_state (ascii ''text'') \<lparr>outcomes = \<lambda>n. ChatReturns (ascii ''q''), calls = 0\<rparr>)
        \<lparr>questions_history :=
            [\<lparr>h_question = VNone, h_topic = VNone, h_difficulty = 1, h_user_answer = ascii ''A'',
              h_correct_answer = ascii ''A'', h_is_correct = True, h_explanation = VNone\<rparr>,
             \<lparr>h_question = VNone, h_topic = VNone, h_difficulty = 1, h_user_answer = ascii ''A'',
              h_correct_answer = ascii ''A'', h_is_correct = True, h_explanation = VNone\<rparr>,
             \<lparr>h_question = VNone, h_topic = VNone, h_difficulty = 2, h_user_answer = ascii ''A'',
              h_correct_answer = ascii ''A'', h_is_correct = True, h_explanation = VNone\<rparr>,
             \<lparr>h_question = VNone, h_topic = VNone, h_difficulty = 3, h_user_answer = ascii ''B'',
              h_correct_answer = ascii ''A'', h_is_correct = False, h_explanation = VNone\<rparr>],
          total_questions := 4, correct_answers := 3, current_difficulty := 3,
          max_difficulty_reached := 3\<rparr>) =
     Inr \<lparr>m_total_questions = 4, m_correct_answers = 3, accuracy = VFloat (Finite 75),
          avg_difficulty = VFloat (Finite (7 / 4)), m_max_difficulty_reached = 3,
          m_current_difficulty = 3\<rparr>"
proof -
  let ?init = "init_session_state (ascii ''text'')
      \<lparr>outcomes = \<lambda>n. ChatReturns (ascii ''q''), calls = 0\<rparr>"
  let ?st = "?init
        \<lparr>questions_history :=
            [\<lparr>h_question = VNone, h_topic = VNone, h_difficulty = 1, h_user_answer = ascii ''A'',
              h_correct_answer = ascii ''A'', h_is_correct = True, h_explanation = VNone\<rparr>,
             \<lparr>h_question = VNone, h_topic = VNone, h_difficulty = 1, h_user_answer = ascii ''A'',
              h_correct_answer = ascii ''A'', h_is_correct = True, h_explanation = VNone\<rparr>,
             \<lparr>h_question = VNone, h_topic = VNone, h_difficulty = 2, h_user_answer = ascii ''A'',
              h_correct_answer = ascii ''A'', h_is_correct = True, h_explanation = VNone\<rparr>,
             \<lparr>h_question = VNone, h_topic = VNone, h_difficulty = 3, h_user_answer = ascii ''B'',
              h_correct_answer = ascii ''A'', h_is_correct = False, h_explanation = VNone\<rparr>],
          total_questions := 4, correct_answers := 3, current_difficulty := 3,
          max_difficulty_reached := 3\<rparr>"
  have a: "get_performance_metrics ?init =
     Inr \<lparr>m_total_questions = 0, m_correct_answers = 0, accuracy = VInt 0,
          avg_difficulty = VInt 1, m_max_difficulty_reached = 1, m_current_difficulty = 1\<rparr>"
    using metrics_from_history [where st = ?init, THEN conjunct1]
    by (simp add: init_session_state_def)
  have b: "get_performance_metrics ?st =
     Inr \<lparr>m_total_questions = 4, m_correct_answers = 3, accuracy = VFloat (Finite 75),
          avg_difficulty = VFloat (Finite (7 / 4)), m_max_difficulty_reached = 3,
          m_current_difficulty = 3\<rparr>"
    using metrics_from_history [where st = ?st, THEN conjunct2, THEN conjunct2, THEN conjunct1]
    by (simp add: init_session_state_def binary64_examples)
  from a b show ?thesis ..
qed

section \<open>Properties of a failed question\<close>

lemma error_question_flagged:
  "truthy (dict_get (q_data (error_question msg d name)) (ascii ''error'') VNone)"
  "dict_get (q_data (error_question msg d name)) (ascii ''error_message'') VNone = VStr msg"
  "q_difficulty (error_question msg d name) = d"
  by (simp_all add: error_question_def dict_get_def ascii_eq_iff)

lemma generate_question_unparsable:
  assumes "parse_json_response loads raw = Inl (ValueError msg)"
    and "outcomes handler (calls handler) = ChatReturns raw"
  shows "fst (generate_question loads handler content difficulty asked topic) =
           error_question msg difficulty
             (case map_of DIFFICULTY_LEVELS difficulty of Some name \<Rightarrow> name | None \<Rightarrow> ascii ''medium'')"
  using assms by (simp add: generate_question_def call_chat_def Let_def)

lemma request_question_unparsable:
  assumes "parse_json_response loads raw = Inl (ValueError msg)"
    and "outcomes (llm st) (calls (llm st)) = ChatReturns raw" and "\<not> show_feedback st"
  shows "current_question (request_question loads st) =
           Some (error_question msg (current_difficulty st)
             (case map_of DIFFICULTY_LEVELS (current_difficulty st) of
                Some name \<Rightarrow> name | None \<Rightarrow> ascii ''medium''))"
  using assms(3)
    generate_question_unparsable [OF assms(1,2), of "pdf_content st" "current_difficulty st"
      "asked_questions st" None]
  by (auto simp: request_question_def Let_def split: prod.splits)

lemma render_question_error:
  assumes "current_question (request_question loads st) = Some q"
    and "truthy (dict_get (q_data q) (ascii ''error'') VNone)"
  shows "snd (render_question loads upper pressed st) = request_question loads st \<or>
         snd (render_question loads upper pressed st) =
           (request_question loads st)\<lparr>current_question := None\<rparr>"
  using assms by (auto simp: render_question_def Let_def error_view_def split: sum.splits)

text \<open>
  Claim C8. When all three parsing attempts fail on a response, \<^verbatim>\<open>_parse_json_response\<close>
  raises its \<^verbatim>\<open>ValueError\<close>; \<^verbatim>\<open>generate_question\<close>, called when the model returns this
  response, returns the error dictionary, flagged by \<^verbatim>\<open>error\<close> and carrying the message;
  and a run of \<^verbatim>\<open>render_question\<close> that asks for a question and gets this response leaves
  the history, the window, the difficulties and the counters as they were, whatever
  button was pressed: it shows the error and does not reach the answer form.
\<close>

theorem unparsable_response_gives_error_question:
  assumes "loads raw = JSONDecodeError"
    and "(case re_search fenced_block raw of Some g \<Rightarrow> loads g | None \<Rightarrow> JSONDecodeError) = JSONDecodeError"
    and "(case re_search brace_span raw of Some b \<Rightarrow> loads b | None \<Rightarrow> JSONDecodeError) = JSONDecodeError"
  shows
   "parse_json_response loads raw =
      Inl (ValueError (ascii ''Could not parse JSON from response'')) \<and>
    (outcomes handler (calls handler) = ChatReturns raw \<longrightarrow>
       truthy (dict_get (q_data (fst (generate_question loads handler content difficulty asked topic)))
                 (ascii ''error'') VNone) \<and>
       dict_get (q_data (fst (generate_question loads handler content difficulty asked topic)))
         (ascii ''error_message'') VNone =
         VStr (ascii ''Could not parse JSON from response'') \<and>
       q_difficulty (fst (generate_question loads handler content difficulty asked topic)) =
         difficulty) \<and>
    (\<not> show_feedback st \<and> outcomes (llm st) (calls (llm st)) = ChatReturns raw \<longrightarrow>
       same_scores st (snd (render_question loads upper pressed st)) \<and>
       (current_question (snd (render_question loads upper pressed st)) = None \<or>
        current_question (snd (render_question loads upper pressed st)) =
          Some (fst (generate_question loads (llm st) (pdf_content st) (current_difficulty st)
                       (asked_questions st) None))) \<and>
       show_feedback (snd (render_question loads upper pressed st)) = False \<and>
       (assessment_started st \<and> \<not> assessment_complete st \<longrightarrow>
          same_scores st (main loads upper (Run pressed) st)))"
proof -
  let ?msg = "ascii ''Could not parse JSON from response''"
  have parse: "parse_json_response loads raw = Inl (ValueError ?msg)"
    using assms by (auto simp: parse_json_response_def try_loads_def split: option.splits loads_result.splits)
  have gen: "outcomes handler (calls handler) = ChatReturns raw \<longrightarrow>
       truthy (dict_get (q_data (fst (generate_question loads handler content difficulty asked topic)))
                 (ascii ''error'') VNone) \<and>
       dict_get (q_data (fst (generate_question loads handler content difficulty asked topic)))
         (ascii ''error_message'') VNone = VStr ?msg \<and>
       q_difficulty (fst (generate_question loads handler content difficulty asked topic)) =
         difficulty"
    using generate_question_unparsable [OF parse, of handler content difficulty asked topic]
    by (simp add: error_question_flagged)
  have run: "\<not> show_feedback st \<and> outcomes (llm st) (calls (llm st)) = ChatReturns raw \<longrightarrow>
       same_scores st (snd (render_question loads upper pressed st)) \<and>
       (current_question (snd (render_question loads upper pressed st)) = None \<or>
        current_question (snd (render_question loads upper pressed st)) =
          Some (fst (generate_question loads (llm st) (pdf_content st) (current_difficulty st)
                       (asked_questions st) None))) \<and>
       show_feedback (snd (render_question loads upper pressed st)) = False \<and>
       (assessment_started st \<and> \<not> assessment_complete st \<longrightarrow>
          same_scores st (main loads upper (Run pressed) st))"
  proof (intro impI, elim conjE)
    assume nf: "\<not> show_feedback st" and out: "outcomes (llm st) (calls (llm st)) = ChatReturns raw"
    let ?q = "fst (generate_question loads (llm st) (pdf_content st) (current_difficulty st)
                       (asked_questions st) None)"
    have q: "?q = error_question ?msg (current_difficulty st)
             (case map_of DIFFICULTY_LEVELS (current_difficulty st) of
                Some name \<Rightarrow> name | None \<Rightarrow> ascii ''medium'')"
      using generate_question_unparsable [OF parse out] .
    have cq: "current_question (request_question loads st) = Some ?q"
      using request_question_unparsable [OF parse out nf] q by simp
    have flagged: "truthy (dict_get (q_data ?q) (ascii ''error'') VNone)"
      unfolding q by (rule error_question_flagged)
    from render_question_error [OF cq flagged, of upper pressed]
    show "same_scores st (snd (render_question loads upper pressed st)) \<and>
       (current_question (snd (render_question loads upper pressed st)) = None \<or>
        current_question (snd (render_question loads upper pressed st)) = Some ?q) \<and>
       show_feedback (snd (render_question loads upper pressed st)) = False \<and>
       (assessment_started st \<and> \<not> assessment_complete st \<longrightarrow>
          same_scores st (main loads upper (Run pressed) st))"
    proof
      assume "snd (render_question loads upper pressed st) = request_question loads st"
      then show ?thesis
        using cq nf request_question_same_scores [of st loads]
        by (simp add: request_question_scores main_def same_scores_def
            split: sum.splits option.splits)
    next
      assume "snd (render_question loads upper pressed st) =
           (request_question loads st)\<lparr>current_question := None\<rparr>"
      then show ?thesis
        using nf request_question_same_scores [of st loads]
        by (simp add: request_question_scores same_scores_def main_def
            split: sum.splits option.splits)
    qed
  qed
  from parse gen run show ?thesis by (intro conjI)
qed


theorem unparsable_response_gives_error_question_witness:
  "parse_json_response (\<lambda>s. if s = ascii ''{}'' then Returns (VDict []) else JSONDecodeError)
     (ascii ''I cannot help with that.'') =
     Inl (ValueError (ascii ''Could not parse JSON from response'')) \<and>
   truthy (dict_get (q_data (fst (generate_question
       (\<lambda>s. if s = ascii ''{}'' then Returns (VDict []) else JSONDecodeError)
       \<lparr>outcomes = \<lambda>n. ChatReturns (ascii ''I cannot help with that.''), calls = 0\<rparr>
       (ascii ''text'') 2 [] None))) (ascii ''error'') VNone) \<and>
   same_scores
     ((init_session_state (ascii ''text'')
         \<lparr>outcomes = \<lambda>n. ChatReturns (ascii ''I cannot help with that.''), calls = 0\<rparr>)
        \<lparr>assessment_started := True\<rparr>)
     (main (\<lambda>s. if s = ascii ''{}'' then Returns (VDict []) else JSONDecodeError) (\<lambda>s. s)
        (Run (SubmitAnswer (Some (ascii ''A''))))
        ((init_session_state (ascii ''text'')
            \<lparr>outcomes = \<lambda>n. ChatReturns (ascii ''I cannot help with that.''), calls = 0\<rparr>)
           \<lparr>assessment_started := True\<rparr>))"
proof -
  let ?loads = "\<lambda>s. if s = ascii ''{}'' then Returns (VDict []) else JSONDecodeError"
  let ?raw = "ascii ''I cannot help with that.''"
  let ?handler = "\<lparr>outcomes = \<lambda>n. ChatReturns ?raw, calls = 0\<rparr>"
  let ?st = "(init_session_state (ascii ''text'') ?handler)\<lparr>assessment_started := True\<rparr>"
  have f1: "?loads ?raw = JSONDecodeError"
    by (simp add: ascii_eq_iff)
  have "re_search fenced_block ?raw = None"
    by (simp add: fenced_block_def ascii_def re_lit_def)
  then have f2: "(case re_search fenced_block ?raw of Some g \<Rightarrow> ?loads g | None \<Rightarrow> JSONDecodeError) = JSONDecodeError"
    by simp
  have "re_search brace_span ?raw = None"
    by (simp add: brace_span_def ascii_def re_lit_def re_group_def)
  then have f3: "(case re_search brace_span ?raw of Some b \<Rightarrow> ?loads b | None \<Rightarrow> JSONDecodeError) = JSONDecodeError"
    by simp
  note inst = unparsable_response_gives_error_question [OF f1 f2 f3]
  have a: "parse_json_response ?loads ?raw =
      Inl (ValueError (ascii ''Could not parse JSON from response''))"
    using inst by (rule conjunct1)
  have b: "truthy (dict_get (q_data (fst (generate_question ?loads ?handler (ascii ''text'') 2 [] None)))
      (ascii ''error'') VNone)"
    using inst [THEN conjunct2, THEN conjunct1, of ?handler "ascii ''text''" 2 "[]" None]
    by simp
  have c: "same_scores ?st (main ?loads (\<lambda>s. s) (Run (SubmitAnswer (Some (ascii ''A'')))) ?st)"
    using inst [THEN conjunct2, THEN conjunct2, of ?st "\<lambda>s. s" "SubmitAnswer (Some (ascii ''A''))"]
    by (simp add: init_session_state_def)
  from a b c show ?thesis by (intro conjI)
qed

end
